theory Spec2Isabelle
  imports Complex_Main
begin

section \<open>Timers of the page's event loop\<close>

text \<open>
  script.js runs on one thread. \<^verbatim>\<open>setTimeout(f, delay)\<close> registers a callback that is due
  at the current time plus the delay (milliseconds); the event loop runs the pending
  callback with the earliest due time first, and callbacks with equal due times in the
  order of their registration. Time is the virtual time of the timer queue: a callback
  runs at its due time.
\<close>

datatype task =
    ThemeCommit string          \<comment> \<open>outer callback of the theme toggle's click handler (line 113)\<close>
  | ThemeTransitionEnd          \<comment> \<open>inner callback (line 119)\<close>
  | RippleRemove nat            \<comment> \<open>line 239, for the ripple of feature item i\<close>
  | NotifSlideIn nat            \<comment> \<open>line 330, for notification n\<close>
  | NotifAutoDismiss nat        \<comment> \<open>line 342\<close>
  | NotifRemove nat             \<comment> \<open>lines 338 and 345\<close>

definition setTimeout :: "task \<Rightarrow> nat \<Rightarrow> nat \<Rightarrow> (nat \<times> task) list \<Rightarrow> (nat \<times> task) list" where
  "setTimeout k delay t ts = ts @ [(t + delay, k)]"

fun next_timer :: "(nat \<times> task) list \<Rightarrow> (nat \<times> task) option" where
  "next_timer [] = None"
| "next_timer (x # xs) =
     (case next_timer xs of
        None \<Rightarrow> Some x
      | Some y \<Rightarrow> if fst y < fst x then Some y else Some x)"

section \<open>The page\<close>

text \<open>
  \<^verbatim>\<open>classList\<close> is an ordered set of tokens: \<^verbatim>\<open>add\<close> appends a token that is absent,
  \<^verbatim>\<open>remove\<close> deletes it.
\<close>

definition classList_add :: "string \<Rightarrow> string list \<Rightarrow> string list" where
  "classList_add c cs = (if c \<in> set cs then cs else cs @ [c])"

definition classList_remove :: "string \<Rightarrow> string list \<Rightarrow> string list" where
  "classList_remove c cs = removeAll c cs"

text \<open>
  The theme toggle button. Its \<^verbatim>\<open>innerHTML\<close> is the icon, a JavaScript string, kept as
  its UTF-16 code units: the sun is U+2600 U+FE0F, the moon is U+1F319 (the surrogate
  pair D83C DF19).
\<close>

record toggle_button =
  innerHTML :: "nat list"
  aria_label :: "string option"
  title :: "string option"

record feature_item =
  classList :: "string list"
  style_position :: string
  style_overflow :: string
  ripples :: nat                \<comment> \<open>the ripple spans appended to the item and not yet removed\<close>

record notification =
  message :: string             \<comment> \<open>the text inside the notification-message span\<close>
  className :: string
  transform :: string
  in_document :: bool           \<comment> \<open>\<^verbatim>\<open>document.body.contains(notification)\<close>\<close>

record page =
  now :: nat
  timers :: "(nat \<times> task) list"
  data_theme :: "string option"             \<comment> \<open>the root element's data-theme attribute\<close>
  localStorage :: "string \<rightharpoonup> string"
  themeToggle :: "toggle_button option"     \<comment> \<open>\<^verbatim>\<open>getElementById('theme-toggle')\<close>\<close>
  body_classList :: "string list"
  featureItems :: "feature_item list"       \<comment> \<open>\<^verbatim>\<open>querySelectorAll('.feature-item')\<close>\<close>
  notifications :: "notification list"      \<comment> \<open>every notification created, in creation order\<close>

subsection \<open>Theme toggle (lines 97 to 139)\<close>

definition sun_icon :: "nat list" where
  "sun_icon = [0x2600, 0xFE0F]"

definition moon_icon :: "nat list" where
  "moon_icon = [0xD83C, 0xDF19]"

definition updateThemeToggleIcon :: "string \<Rightarrow> page \<Rightarrow> page" where
  "updateThemeToggleIcon theme s =
     (case themeToggle s of
        None \<Rightarrow> s
      | Some b \<Rightarrow>
          let icon = (if theme = ''dark'' then sun_icon else moon_icon);
              label = (if theme = ''dark'' then ''Switch to light mode'' else ''Switch to dark mode'')
          in s\<lparr>themeToggle :=
                 Some (b\<lparr>innerHTML := icon, aria_label := Some label, title := Some label\<rparr>)\<rparr>)"

text \<open>\<^verbatim>\<open>localStorage.getItem('theme') || 'light'\<close>: an absent key and the empty string are falsy.\<close>

definition savedTheme :: "page \<Rightarrow> string" where
  "savedTheme s =
     (case localStorage s ''theme'' of
        None \<Rightarrow> ''light''
      | Some v \<Rightarrow> if v = [] then ''light'' else v)"

definition initializeThemeToggle :: "page \<Rightarrow> page" where
  "initializeThemeToggle s =
     (case themeToggle s of
        None \<Rightarrow> s
      | Some b \<Rightarrow> updateThemeToggleIcon (savedTheme s) (s\<lparr>data_theme := Some (savedTheme s)\<rparr>))"

text \<open>\<^verbatim>\<open>currentTheme === 'dark' ? 'light' : 'dark'\<close>; \<^verbatim>\<open>getAttribute\<close> gives null when the
  attribute is absent.\<close>

definition newTheme :: "string option \<Rightarrow> string" where
  "newTheme currentTheme = (if currentTheme = Some ''dark'' then ''light'' else ''dark'')"

text \<open>The click listener of the toggle; without the button no listener is registered.\<close>

definition click_themeToggle :: "page \<Rightarrow> page" where
  "click_themeToggle s =
     (case themeToggle s of
        None \<Rightarrow> s
      | Some b \<Rightarrow>
          s\<lparr>body_classList := classList_add ''theme-transition'' (body_classList s),
            timers := setTimeout (ThemeCommit (newTheme (data_theme s))) 50 (now s) (timers s)\<rparr>)"

subsection \<open>Notifications (lines 300 to 348)\<close>

definition showNotification :: "string \<Rightarrow> string \<Rightarrow> page \<Rightarrow> page" where
  "showNotification msg type s =
     (let n = length (notifications s);
          el = \<lparr>message = msg, className = ''notification notification-'' @ type,
                transform = ''translateX(100%)'', in_document = True\<rparr>
      in s\<lparr>notifications := notifications s @ [el],
            timers := setTimeout (NotifAutoDismiss n) 5000 (now s)
                        (setTimeout (NotifSlideIn n) 100 (now s) (timers s))\<rparr>)"

text \<open>The click listener of notification n's close button (lines 336 to 339).\<close>

definition click_close :: "nat \<Rightarrow> page \<Rightarrow> page" where
  "click_close n s =
     (if n < length (notifications s) then
        s\<lparr>notifications := (notifications s)[n := (notifications s ! n)\<lparr>transform := ''translateX(100%)''\<rparr>],
          timers := setTimeout (NotifRemove n) 300 (now s) (timers s)\<rparr>
      else s)"

subsection \<open>Feature items (lines 192 to 259)\<close>

record feature =
  feature_title :: string
  description :: string

definition features :: "feature list" where
  "features =
     [\<lparr>feature_title = ''Modern Design'', description = ''Clean and contemporary UK-focused design''\<rparr>,
      \<lparr>feature_title = ''Responsive Layout'', description = ''Perfect display on all devices''\<rparr>,
      \<lparr>feature_title = ''Fast Loading'', description = ''Optimized for quick page loads''\<rparr>,
      \<lparr>feature_title = ''Accessible'', description = ''Built with accessibility in mind''\<rparr>]"

text \<open>\<^verbatim>\<open>features[index]\<close> is undefined beyond the array, and undefined is falsy.\<close>

definition showFeatureDetails :: "nat \<Rightarrow> page \<Rightarrow> page" where
  "showFeatureDetails index s =
     (if index < length features then
        showNotification (feature_title (features ! index) @ '': '' @ description (features ! index))
          ''info'' s
      else s)"

text \<open>
  \<^verbatim>\<open>createRippleEffect\<close> appends a ripple span to the item, sets two inline styles of the
  item and schedules the span's removal; the span's own geometry is not represented.
\<close>

definition createRippleEffect :: "nat \<Rightarrow> page \<Rightarrow> page" where
  "createRippleEffect i s =
     (let it = featureItems s ! i
      in s\<lparr>featureItems := (featureItems s)[i := it\<lparr>style_position := ''relative'',
                                  style_overflow := ''hidden'', ripples := Suc (ripples it)\<rparr>],
            timers := setTimeout (RippleRemove i) 600 (now s) (timers s)\<rparr>)"

definition highlight :: "nat \<Rightarrow> feature_item list \<Rightarrow> feature_item list" where
  "highlight i items =
     (let cleared = map (\<lambda>fi. fi\<lparr>classList := classList_remove ''active'' (classList fi)\<rparr>) items
      in cleared[i := (cleared ! i)\<lparr>classList := classList_add ''active'' (classList (cleared ! i))\<rparr>])"

text \<open>The click listener of feature item i (lines 194 to 204); items beyond the list do
  not exist and have no listener. The listener takes the click event from the global
  \<^verbatim>\<open>event\<close>, which the browser sets while it dispatches the click.\<close>

definition click_feature :: "nat \<Rightarrow> page \<Rightarrow> page" where
  "click_feature i s =
     (if i < length (featureItems s) then
        (let s1 = createRippleEffect i s;
             s2 = s1\<lparr>featureItems := highlight i (featureItems s1)\<rparr>
         in showFeatureDetails i s2)
      else s)"

subsection \<open>Running the timers\<close>

fun fire :: "task \<Rightarrow> page \<Rightarrow> page" where
  "fire (ThemeCommit theme) s =
     (let s1 = s\<lparr>data_theme := Some theme\<rparr>;
          s2 = s1\<lparr>localStorage := (localStorage s1)(''theme'' \<mapsto> theme)\<rparr>;
          s3 = updateThemeToggleIcon theme s2
      in s3\<lparr>timers := setTimeout ThemeTransitionEnd 300 (now s3) (timers s3)\<rparr>)"
| "fire ThemeTransitionEnd s =
     s\<lparr>body_classList := classList_remove ''theme-transition'' (body_classList s)\<rparr>"
| "fire (RippleRemove i) s =
     (if i < length (featureItems s) then
        s\<lparr>featureItems := (featureItems s)[i := (featureItems s ! i)\<lparr>ripples := ripples (featureItems s ! i) - 1\<rparr>]\<rparr>
      else s)"
| "fire (NotifSlideIn n) s =
     (if n < length (notifications s) then
        s\<lparr>notifications := (notifications s)[n := (notifications s ! n)\<lparr>transform := ''translateX(0)''\<rparr>]\<rparr>
      else s)"
| "fire (NotifAutoDismiss n) s =
     (if n < length (notifications s) \<and> in_document (notifications s ! n) then
        s\<lparr>notifications := (notifications s)[n := (notifications s ! n)\<lparr>transform := ''translateX(100%)''\<rparr>],
          timers := setTimeout (NotifRemove n) 300 (now s) (timers s)\<rparr>
      else s)"
| "fire (NotifRemove n) s =
     (if n < length (notifications s) then
        s\<lparr>notifications := (notifications s)[n := (notifications s ! n)\<lparr>in_document := False\<rparr>]\<rparr>
      else s)"

text \<open>
  The loop terminates: a callback registers at most one further callback, and that one
  registers none. With the weights below, running a callback lowers the total weight of
  the queue.
\<close>

fun weight :: "task \<Rightarrow> nat" where
  "weight (ThemeCommit theme) = 2"
| "weight (NotifAutoDismiss n) = 2"
| "weight k = 1"

definition load :: "page \<Rightarrow> nat" where
  "load s = sum_list (map (\<lambda>x. weight (snd x)) (timers s))"

lemma next_timer_mem: "next_timer ts = Some x \<Longrightarrow> x \<in> set ts"
  by (induction ts arbitrary: x) (auto split: option.splits if_splits)

lemma next_timer_None: "next_timer ts = None \<longleftrightarrow> ts = []"
  by (cases ts) (auto split: option.splits if_splits)

lemma next_timer_le: "next_timer ts = Some x \<Longrightarrow> \<forall>y\<in>set ts. fst x \<le> fst y"
proof (induction ts arbitrary: x)
  case Nil
  then show ?case by simp
next
  case (Cons a ts)
  show ?case
  proof (cases "next_timer ts")
    case None
    then have "ts = []" by (simp add: next_timer_None)
    with Cons.prems None show ?thesis by simp
  next
    case (Some z)
    have le: "\<forall>w\<in>set ts. fst z \<le> fst w"
      using Cons.IH [OF Some] .
    from Cons.prems Some le show ?thesis
      by (fastforce split: if_splits)
  qed
qed

lemma sum_weight_remove1:
  "x \<in> set ts \<Longrightarrow>
   sum_list (map (\<lambda>x. weight (snd x)) (remove1 x ts)) + weight (snd x)
     = sum_list (map (\<lambda>x. weight (snd x)) ts)"
  by (induction ts) auto

lemma timers_updateThemeToggleIcon [simp]: "timers (updateThemeToggleIcon theme s) = timers s"
  by (simp add: updateThemeToggleIcon_def Let_def split: option.splits)

lemma load_fire:
  "load (fire k (s\<lparr>now := t, timers := ts\<rparr>)) < sum_list (map (\<lambda>x. weight (snd x)) ts) + weight k"
  by (cases k) (simp_all add: load_def setTimeout_def Let_def)

text \<open>
  \<open>run_until t\<close> is the event loop up to time t with no user input: it runs every callback
  due by t, also those that the callbacks it runs register, each at its due time.
\<close>

function run_until :: "nat \<Rightarrow> page \<Rightarrow> page" where
  "run_until t s =
     (case next_timer (timers s) of
        None \<Rightarrow> s\<lparr>now := max (now s) t\<rparr>
      | Some x \<Rightarrow>
          if fst x \<le> t then
            run_until t (fire (snd x) (s\<lparr>now := max (now s) (fst x), timers := remove1 x (timers s)\<rparr>))
          else s\<lparr>now := max (now s) t\<rparr>)"
  by pat_completeness auto
termination
proof (relation "measure (\<lambda>(t, s). load s)")
  show "wf (measure (\<lambda>(t, s). load s))" by simp
next
  fix t :: nat and s :: page and x :: "nat \<times> task"
  assume nx: "next_timer (timers s) = Some x"
  have "load (fire (snd x) (s\<lparr>now := max (now s) (fst x), timers := remove1 x (timers s)\<rparr>))
          < sum_list (map (\<lambda>x. weight (snd x)) (remove1 x (timers s))) + weight (snd x)"
    by (rule load_fire)
  also have "\<dots> = load s"
    using sum_weight_remove1 [OF next_timer_mem [OF nx]] by (simp add: load_def)
  finally show "((t, fire (snd x) (s\<lparr>now := max (now s) (fst x), timers := remove1 x (timers s)\<rparr>)), (t, s))
                  \<in> measure (\<lambda>(t, s). load s)"
    by simp
qed

declare run_until.simps [simp del]

section \<open>Theme toggle: one complete toggle\<close>

text \<open>
  A click on the toggle only schedules the change of theme: the attribute, the stored
  value and the button are written 50 ms later, by the callback of line 113.
  \<open>toggle_theme d\<close> is a click followed by d ms without user input. A page is settled
  when no such callback is pending.
\<close>

fun is_commit :: "task \<Rightarrow> bool" where
  "is_commit (ThemeCommit theme) = True"
| "is_commit k = False"

lemma themeToggle_update [simp]:
  "themeToggle (updateThemeToggleIcon th s) =
     map_option (\<lambda>b. b\<lparr>innerHTML := (if th = ''dark'' then sun_icon else moon_icon),
                         aria_label := Some (if th = ''dark'' then ''Switch to light mode'' else ''Switch to dark mode''),
                         title := Some (if th = ''dark'' then ''Switch to light mode'' else ''Switch to dark mode'')\<rparr>)
       (themeToggle s)"
  by (simp add: updateThemeToggleIcon_def Let_def split: option.splits)

lemma updateThemeToggleIcon_fields [simp]:
  "data_theme (updateThemeToggleIcon th s) = data_theme s"
  "localStorage (updateThemeToggleIcon th s) = localStorage s"
  "now (updateThemeToggleIcon th s) = now s"
  "body_classList (updateThemeToggleIcon th s) = body_classList s"
  "featureItems (updateThemeToggleIcon th s) = featureItems s"
  "notifications (updateThemeToggleIcon th s) = notifications s"
  by (simp_all add: updateThemeToggleIcon_def Let_def split: option.splits)

lemma fire_theme_unchanged:
  "\<not> is_commit k \<Longrightarrow>
   data_theme (fire k s) = data_theme s \<and> localStorage (fire k s) = localStorage s \<and>
   themeToggle (fire k s) = themeToggle s"
  by (cases k) (simp_all add: Let_def)

lemma fire_timers:
  "set (timers (fire k s)) \<subseteq> set (timers s) \<union> {x. \<not> is_commit (snd x)}"
  by (cases k) (auto simp: setTimeout_def Let_def)

lemma fire_timers_mono: "set (timers s) \<subseteq> set (timers (fire k s))"
  by (cases k) (auto simp: setTimeout_def Let_def)

text \<open>
  The invariant of a run up to time t during which every pending theme change is a change
  to \<open>th\<close>: either \<open>th\<close> is already written (attribute, storage M, button T), or a
  change to \<open>th\<close> is still pending and due by t. T and M are what writing \<open>th\<close>
  makes of the button and of the storage.
\<close>

definition theme_inv :: "string \<Rightarrow> nat \<Rightarrow> toggle_button option \<Rightarrow> (string \<rightharpoonup> string) \<Rightarrow> page \<Rightarrow> bool" where
  "theme_inv th t T M s \<longleftrightarrow>
     (\<forall>x\<in>set (timers s). is_commit (snd x) \<longrightarrow> snd x = ThemeCommit th) \<and>
     themeToggle (updateThemeToggleIcon th s) = T \<and>
     (localStorage s)(''theme'' \<mapsto> th) = M \<and>
     ((data_theme s = Some th \<and> localStorage s = M \<and> themeToggle s = T) \<or>
      (\<exists>d\<le>t. (d, ThemeCommit th) \<in> set (timers s)))"

lemma theme_inv_step:
  assumes inv: "theme_inv th t T M s" and nx: "next_timer (timers s) = Some x"
  shows "theme_inv th t T M (fire (snd x) (s\<lparr>now := n, timers := remove1 x (timers s)\<rparr>))"
proof (cases "is_commit (snd x)")
  case True
  have xin: "x \<in> set (timers s)" using nx by (rule next_timer_mem)
  with inv True have sx: "snd x = ThemeCommit th" by (simp add: theme_inv_def)
  let ?s = "s\<lparr>now := n, timers := remove1 x (timers s)\<rparr>"
  have "\<forall>y\<in>set (timers (fire (ThemeCommit th) ?s)). is_commit (snd y) \<longrightarrow> snd y = ThemeCommit th"
    using inv by (auto simp: theme_inv_def setTimeout_def Let_def dest: notin_set_remove1)
  moreover have "data_theme (fire (ThemeCommit th) ?s) = Some th" by (simp add: Let_def)
  moreover have "localStorage (fire (ThemeCommit th) ?s) = M"
    using inv by (simp add: Let_def theme_inv_def)
  moreover have "themeToggle (fire (ThemeCommit th) ?s) = T"
    using inv by (simp add: Let_def theme_inv_def)
  moreover have "themeToggle (updateThemeToggleIcon th (fire (ThemeCommit th) ?s)) = T"
    using inv by (auto simp add: Let_def theme_inv_def option.map_comp comp_def)
  moreover have "(localStorage (fire (ThemeCommit th) ?s))(''theme'' \<mapsto> th) = M"
    using inv by (auto simp add: Let_def theme_inv_def)
  ultimately show ?thesis
    unfolding theme_inv_def sx by blast
next
  case False
  let ?s = "s\<lparr>now := n, timers := remove1 x (timers s)\<rparr>"
  note un = fire_theme_unchanged [OF False, of ?s]
  have sub: "set (timers (fire (snd x) ?s)) \<subseteq> set (timers s) \<union> {y. \<not> is_commit (snd y)}"
    using fire_timers [of "snd x" ?s] set_remove1_subset [of x "timers s"] by auto
  have c1: "\<forall>y\<in>set (timers (fire (snd x) ?s)). is_commit (snd y) \<longrightarrow> snd y = ThemeCommit th"
    using inv sub by (auto simp: theme_inv_def)
  have c2: "themeToggle (updateThemeToggleIcon th (fire (snd x) ?s)) = T"
    using inv un by (simp add: theme_inv_def)
  have c3: "(localStorage (fire (snd x) ?s))(''theme'' \<mapsto> th) = M"
    using inv un by (simp add: theme_inv_def)
  have keep: "\<And>d. (d, ThemeCommit th) \<in> set (timers s) \<Longrightarrow> (d, ThemeCommit th) \<in> set (timers (fire (snd x) ?s))"
  proof -
    fix d assume a: "(d, ThemeCommit th) \<in> set (timers s)"
    have "(d, ThemeCommit th) \<noteq> x" using False by auto
    then have "(d, ThemeCommit th) \<in> set (remove1 x (timers s))" using a by simp
    then show "(d, ThemeCommit th) \<in> set (timers (fire (snd x) ?s))"
      using fire_timers_mono [of ?s "snd x"] by auto
  qed
  have c4: "(data_theme (fire (snd x) ?s) = Some th \<and> localStorage (fire (snd x) ?s) = M \<and>
             themeToggle (fire (snd x) ?s) = T) \<or>
            (\<exists>d\<le>t. (d, ThemeCommit th) \<in> set (timers (fire (snd x) ?s)))"
    using inv un keep unfolding theme_inv_def by (simp (no_asm_simp)) blast
  show ?thesis
    unfolding theme_inv_def using c1 c2 c3 c4 by blast
qed

lemma theme_inv_run:
  "theme_inv th t T M s \<Longrightarrow>
   data_theme (run_until t s) = Some th \<and> localStorage (run_until t s) = M \<and>
   themeToggle (run_until t s) = T"
proof (induction t s rule: run_until.induct)
  case (1 t s)
  show ?case
  proof (cases "next_timer (timers s)")
    case None
    then have "timers s = []" by (simp add: next_timer_None)
    with "1.prems" None show ?thesis
      by (simp add: run_until.simps [of t s] theme_inv_def)
  next
    case (Some x)
    show ?thesis
    proof (cases "fst x \<le> t")
      case True
      have "theme_inv th t T M (fire (snd x) (s\<lparr>now := max (now s) (fst x), timers := remove1 x (timers s)\<rparr>))"
        using "1.prems" Some by (rule theme_inv_step)
      from "1.IH" [OF Some True this] Some True show ?thesis
        by (simp add: run_until.simps [of t s])
    next
      case False
      have "\<forall>y\<in>set (timers s). fst x \<le> fst y" using Some by (rule next_timer_le)
      with False have "\<not> (\<exists>d\<le>t. (d, ThemeCommit th) \<in> set (timers s))" by fastforce
      with "1.prems" Some False show ?thesis
        by (simp add: run_until.simps [of t s] theme_inv_def)
    qed
  qed
qed


definition toggle_theme :: "nat \<Rightarrow> page \<Rightarrow> page" where
  "toggle_theme d s = run_until (now s + d) (click_themeToggle s)"

definition theme_settled :: "page \<Rightarrow> bool" where
  "theme_settled s = list_all (\<lambda>x. \<not> is_commit (snd x)) (timers s)"

text \<open>A page before script.js runs: nothing stored, a toggle button without labels.\<close>

definition fresh_page :: page where
  "fresh_page =
     \<lparr>now = 0, timers = [], data_theme = None, localStorage = Map.empty,
      themeToggle = Some \<lparr>innerHTML = [], aria_label = None, title = None\<rparr>,
      body_classList = [], featureItems = [], notifications = []\<rparr>"

lemma no_commit_run:
  "\<forall>x\<in>set (timers s). is_commit (snd x) \<longrightarrow> fst x \<le> t \<Longrightarrow>
   \<forall>x\<in>set (timers (run_until t s)). \<not> is_commit (snd x)"
proof (induction t s rule: run_until.induct)
  case (1 t s)
  show ?case
  proof (cases "next_timer (timers s)")
    case None
    then have "timers s = []" by (simp add: next_timer_None)
    with None show ?thesis by (simp add: run_until.simps [of t s])
  next
    case (Some x)
    show ?thesis
    proof (cases "fst x \<le> t")
      case True
      let ?s = "s\<lparr>now := max (now s) (fst x), timers := remove1 x (timers s)\<rparr>"
      have "set (timers (fire (snd x) ?s)) \<subseteq> set (timers s) \<union> {y. \<not> is_commit (snd y)}"
        using fire_timers [of "snd x" ?s] set_remove1_subset [of x "timers s"] by auto
      with "1.prems" have "\<forall>y\<in>set (timers (fire (snd x) ?s)). is_commit (snd y) \<longrightarrow> fst y \<le> t"
        by blast
      from "1.IH" [OF Some True this] Some True show ?thesis
        by (simp add: run_until.simps [of t s])
    next
      case False
      have "\<forall>y\<in>set (timers s). fst x \<le> fst y" using Some by (rule next_timer_le)
      with False "1.prems" have "\<forall>y\<in>set (timers s). \<not> is_commit (snd y)" by fastforce
      with Some False show ?thesis by (simp add: run_until.simps [of t s])
    qed
  qed
qed

lemma toggle_once:
  assumes tg: "themeToggle s = Some b" and nc: "theme_settled s" and d: "50 \<le> d"
  shows "data_theme (run_until (now s + d) (click_themeToggle s)) = Some (newTheme (data_theme s))"
    and "localStorage (run_until (now s + d) (click_themeToggle s))
           = (localStorage s)(''theme'' \<mapsto> newTheme (data_theme s))"
    and "themeToggle (run_until (now s + d) (click_themeToggle s))
           = themeToggle (updateThemeToggleIcon (newTheme (data_theme s)) s)"
    and "theme_settled (run_until (now s + d) (click_themeToggle s))"
proof -
  let ?th = "newTheme (data_theme s)"
  let ?c = "click_themeToggle s"
  have tm: "timers ?c = timers s @ [(now s + 50, ThemeCommit ?th)]"
    using tg by (simp add: click_themeToggle_def setTimeout_def)
  have nc': "\<forall>x\<in>set (timers s). \<not> is_commit (snd x)"
    using nc by (simp add: theme_settled_def list_all_iff)
  have fl: "themeToggle ?c = themeToggle s" "localStorage ?c = localStorage s"
    using tg by (simp_all add: click_themeToggle_def)
  have i1: "\<forall>x\<in>set (timers ?c). is_commit (snd x) \<longrightarrow> snd x = ThemeCommit ?th"
    using tm nc' by auto
  have i2: "themeToggle (updateThemeToggleIcon ?th ?c) = themeToggle (updateThemeToggleIcon ?th s)"
    using fl by simp
  have i3: "(localStorage ?c)(''theme'' \<mapsto> ?th) = (localStorage s)(''theme'' \<mapsto> ?th)"
    using fl by simp
  have i4: "\<exists>d'\<le>now s + d. (d', ThemeCommit ?th) \<in> set (timers ?c)"
    using tm d by (intro exI [of _ "now s + 50"]) simp
  have "theme_inv ?th (now s + d) (themeToggle (updateThemeToggleIcon ?th s))
          ((localStorage s)(''theme'' \<mapsto> ?th)) ?c"
    unfolding theme_inv_def using i1 i2 i3 i4 by blast
  from theme_inv_run [OF this]
  show "data_theme (run_until (now s + d) ?c) = Some ?th"
    and "localStorage (run_until (now s + d) ?c) = (localStorage s)(''theme'' \<mapsto> ?th)"
    and "themeToggle (run_until (now s + d) ?c) = themeToggle (updateThemeToggleIcon ?th s)"
    by simp_all
  have "\<forall>x\<in>set (timers ?c). is_commit (snd x) \<longrightarrow> fst x \<le> now s + d"
    using tm nc' d by auto
  from no_commit_run [OF this]
  show "theme_settled (run_until (now s + d) ?c)"
    by (simp add: theme_settled_def list_all_iff)
qed

lemmas page_eval =
  fresh_page_def initializeThemeToggle_def click_themeToggle_def savedTheme_def setTimeout_def
  newTheme_def classList_add_def classList_remove_def Let_def updateThemeToggleIcon_def
  toggle_theme_def theme_settled_def

section \<open>Properties of the theme toggle\<close>

text \<open>
  C2. A single activation of the theme toggle while the theme is light, on a page with no
  theme change pending, produces dark: once the 50 ms callback has run, the root's
  data-theme attribute is "dark", the value "dark"
  is stored under the key "theme" (no other key changes), and the button carries the sun
  icon with the label and title "Switch to light mode".
\<close>

theorem theme_toggle_light_to_dark:
  assumes "themeToggle s = Some b" and "data_theme s = Some ''light''"
    and "theme_settled s" and "50 \<le> d"
  shows "data_theme (toggle_theme d s) = Some ''dark'' \<and>
         localStorage (toggle_theme d s) = (localStorage s)(''theme'' \<mapsto> ''dark'') \<and>
         themeToggle (toggle_theme d s)
           = Some (b\<lparr>innerHTML := sun_icon, aria_label := Some ''Switch to light mode'',
                      title := Some ''Switch to light mode''\<rparr>)"
  using toggle_once [OF assms(1) assms(3) assms(4)] assms(1) assms(2)
  by (simp add: newTheme_def toggle_theme_def)

theorem theme_toggle_light_to_dark_witness:
  "themeToggle (initializeThemeToggle fresh_page)
     = Some \<lparr>innerHTML = moon_icon, aria_label = Some ''Switch to dark mode'',
             title = Some ''Switch to dark mode''\<rparr> \<and>
   data_theme (initializeThemeToggle fresh_page) = Some ''light'' \<and>
   theme_settled (initializeThemeToggle fresh_page) \<and>
   data_theme (toggle_theme 50 (initializeThemeToggle fresh_page)) = Some ''dark'' \<and>
   localStorage (toggle_theme 50 (initializeThemeToggle fresh_page)) ''theme'' = Some ''dark'' \<and>
   themeToggle (toggle_theme 50 (initializeThemeToggle fresh_page))
     = Some \<lparr>innerHTML = sun_icon, aria_label = Some ''Switch to light mode'',
             title = Some ''Switch to light mode''\<rparr>"
proof -
  let ?s = "initializeThemeToggle fresh_page"
  have h1: "themeToggle ?s = Some \<lparr>innerHTML = moon_icon, aria_label = Some ''Switch to dark mode'',
                                   title = Some ''Switch to dark mode''\<rparr>"
    by (simp add: page_eval)
  have h2: "data_theme ?s = Some ''light''" by (simp add: page_eval)
  have h3: "theme_settled ?s" by (simp add: page_eval)
  have h4: "(50::nat) \<le> 50" by simp
  show ?thesis
    using theme_toggle_light_to_dark [OF h1 h2 h3 h4] h1 h2 h3 by simp
qed

text \<open>
  C9. Whatever the root's data-theme attribute holds, a toggle activation on a settled page
  sets it to "light" when it was exactly "dark" and to "dark" otherwise: also when the
  attribute is absent or holds any other string.
\<close>

theorem theme_toggle_target:
  assumes "themeToggle s = Some b" and "theme_settled s" and "50 \<le> d"
  shows "data_theme (toggle_theme d s)
           = Some (if data_theme s = Some ''dark'' then ''light'' else ''dark'')"
  using toggle_once(1) [OF assms] by (simp add: newTheme_def toggle_theme_def)

theorem theme_toggle_target_witness:
  "themeToggle (fresh_page\<lparr>data_theme := Some ''blue''\<rparr>) = themeToggle fresh_page \<and>
   themeToggle fresh_page = Some \<lparr>innerHTML = [], aria_label = None, title = None\<rparr> \<and>
   theme_settled fresh_page \<and>
   data_theme (toggle_theme 50 fresh_page) = Some ''dark'' \<and>
   data_theme (toggle_theme 50 (fresh_page\<lparr>data_theme := Some ''blue''\<rparr>)) = Some ''dark'' \<and>
   data_theme (toggle_theme 50 (fresh_page\<lparr>data_theme := Some ''dark''\<rparr>)) = Some ''light''"
proof -
  have h1: "themeToggle fresh_page = Some \<lparr>innerHTML = [], aria_label = None, title = None\<rparr>"
    by (simp add: fresh_page_def)
  have h2: "theme_settled fresh_page" by (simp add: page_eval)
  have h3: "(50::nat) \<le> 50" by simp
  have g1: "themeToggle (fresh_page\<lparr>data_theme := Some ''blue''\<rparr>)
              = Some \<lparr>innerHTML = [], aria_label = None, title = None\<rparr>"
    by (simp add: fresh_page_def)
  have g2: "theme_settled (fresh_page\<lparr>data_theme := Some ''blue''\<rparr>)" by (simp add: page_eval)
  have k1: "themeToggle (fresh_page\<lparr>data_theme := Some ''dark''\<rparr>)
              = Some \<lparr>innerHTML = [], aria_label = None, title = None\<rparr>"
    by (simp add: fresh_page_def)
  have k2: "theme_settled (fresh_page\<lparr>data_theme := Some ''dark''\<rparr>)" by (simp add: page_eval)
  have a: "data_theme (toggle_theme 50 fresh_page) = Some ''dark''"
    using theme_toggle_target [OF h1 h2 h3] by (simp add: fresh_page_def)
  have b: "data_theme (toggle_theme 50 (fresh_page\<lparr>data_theme := Some ''blue''\<rparr>)) = Some ''dark''"
    using theme_toggle_target [OF g1 g2 h3] by simp
  have c: "data_theme (toggle_theme 50 (fresh_page\<lparr>data_theme := Some ''dark''\<rparr>)) = Some ''light''"
    using theme_toggle_target [OF k1 k2 h3] by simp
  show ?thesis using h1 h2 a b c by simp
qed

text \<open>
  C3, as stated, fails. On a first visit nothing is stored: initialisation shows the
  light theme and leaves the storage alone, and two toggles later the key "theme" holds
  "light". The stored value has not returned to its initial (absent) value.
\<close>

theorem double_toggle_storage_counterexample:
  "localStorage (initializeThemeToggle fresh_page) ''theme'' = None \<and>
   data_theme (initializeThemeToggle fresh_page) = Some ''light'' \<and>
   localStorage (toggle_theme 50 (toggle_theme 50 (initializeThemeToggle fresh_page))) ''theme''
     = Some ''light''"
  by (simp add: run_until.simps page_eval)

text \<open>
  C3, amended. On a settled page whose theme is light or dark and whose button shows that
  theme (as initialisation and every toggle leave it), two toggles in succession, each
  given its 50 ms, restore the data-theme attribute and the button (icon, label and title);
  the storage then holds the initial theme under "theme", which is the initial stored
  value exactly when a theme was stored to begin with.
\<close>

theorem double_toggle_restores:
  assumes tg: "themeToggle s = Some b" and th: "data_theme s = Some th"
    and ld: "th = ''light'' \<or> th = ''dark''"
    and shown: "themeToggle (updateThemeToggleIcon th s) = themeToggle s"
    and st: "theme_settled s" and d1: "50 \<le> d1" and d2: "50 \<le> d2"
  shows "data_theme (toggle_theme d2 (toggle_theme d1 s)) = data_theme s \<and>
         themeToggle (toggle_theme d2 (toggle_theme d1 s)) = themeToggle s \<and>
         localStorage (toggle_theme d2 (toggle_theme d1 s)) = (localStorage s)(''theme'' \<mapsto> th)"
proof -
  let ?s1 = "toggle_theme d1 s"
  note one = toggle_once [OF tg st d1, folded toggle_theme_def]
  have tg1: "themeToggle ?s1 = Some (b\<lparr>innerHTML := (if newTheme (Some th) = ''dark'' then sun_icon else moon_icon),
                 aria_label := Some (if newTheme (Some th) = ''dark'' then ''Switch to light mode'' else ''Switch to dark mode''),
                 title := Some (if newTheme (Some th) = ''dark'' then ''Switch to light mode'' else ''Switch to dark mode'')\<rparr>)"
    using one(3) tg th by simp
  note two = toggle_once [OF tg1 one(4) d2, folded toggle_theme_def]
  have flip: "newTheme (data_theme ?s1) = th"
    using one(1) th ld by (auto simp: newTheme_def)
  have "data_theme (toggle_theme d2 ?s1) = data_theme s"
    using two(1) flip th by simp
  moreover have "themeToggle (toggle_theme d2 ?s1) = themeToggle s"
  proof -
    have "themeToggle (toggle_theme d2 ?s1) = themeToggle (updateThemeToggleIcon th ?s1)"
      using two(3) flip by simp
    also have "\<dots> = themeToggle (updateThemeToggleIcon th s)"
      using one(3) by (simp add: option.map_comp comp_def)
    finally show ?thesis using shown by simp
  qed
  moreover have "localStorage (toggle_theme d2 ?s1) = (localStorage s)(''theme'' \<mapsto> th)"
    using two(2) one(2) flip by simp
  ultimately show ?thesis by blast
qed

theorem double_toggle_restores_witness:
  "themeToggle (initializeThemeToggle fresh_page)
     = Some \<lparr>innerHTML = moon_icon, aria_label = Some ''Switch to dark mode'',
             title = Some ''Switch to dark mode''\<rparr> \<and>
   data_theme (initializeThemeToggle fresh_page) = Some ''light'' \<and>
   theme_settled (initializeThemeToggle fresh_page) \<and>
   data_theme (toggle_theme 50 (toggle_theme 50 (initializeThemeToggle fresh_page))) = Some ''light'' \<and>
   themeToggle (toggle_theme 50 (toggle_theme 50 (initializeThemeToggle fresh_page)))
     = Some \<lparr>innerHTML = moon_icon, aria_label = Some ''Switch to dark mode'',
             title = Some ''Switch to dark mode''\<rparr> \<and>
   localStorage (toggle_theme 50 (toggle_theme 50 (initializeThemeToggle fresh_page))) ''theme''
     = Some ''light''"
proof -
  let ?s = "initializeThemeToggle fresh_page"
  have h1: "themeToggle ?s = Some \<lparr>innerHTML = moon_icon, aria_label = Some ''Switch to dark mode'',
                                   title = Some ''Switch to dark mode''\<rparr>"
    by (simp add: page_eval)
  have h2: "data_theme ?s = Some ''light''" by (simp add: page_eval)
  have h3: "''light'' = ''light'' \<or> ''light'' = ''dark''" by simp
  have h4: "themeToggle (updateThemeToggleIcon ''light'' ?s) = themeToggle ?s"
    by (simp add: page_eval)
  have h5: "theme_settled ?s" by (simp add: page_eval)
  have h6: "(50::nat) \<le> 50" by simp
  show ?thesis
    using double_toggle_restores [OF h1 h2 h3 h4 h5 h6 h6] h1 h2 h5 by simp
qed

text \<open>
  The two toggles of the amended statement are complete ones. A second click that comes
  before the first click's callback has run reads the old attribute, and both callbacks
  write the same theme: clicks at 0 ms and 10 ms on a light page end in dark.
\<close>

lemma rapid_double_click:
  "data_theme (run_until 400
     (click_themeToggle (run_until 10 (click_themeToggle (initializeThemeToggle fresh_page)))))
   = Some ''dark''"
  by (simp add: run_until.simps page_eval)

section \<open>Notifications: dismissal\<close>

text \<open>
  No callback puts a notification back into the document, so one that is out stays out.
  A notification leaves the document when a pending removal callback comes due, and the
  auto-dismiss callback schedules that removal 300 ms after it runs.
\<close>

lemma fire_notifications_length [simp]:
  "length (notifications (fire k s)) = length (notifications s)"
  by (cases k) (simp_all add: Let_def)

lemma fire_now [simp]: "now (fire k s) = now s"
  by (cases k) (simp_all add: Let_def)

lemma fire_stays_removed:
  "n < length (notifications s) \<Longrightarrow> \<not> in_document (notifications s ! n) \<Longrightarrow>
   \<not> in_document (notifications (fire k s) ! n)"
  by (cases k) (auto simp: Let_def nth_list_update)

text \<open>
  The invariant of a run up to time t that ends with notification n out of the document:
  it is out already, or its removal is pending and due by t, or its auto-dismiss callback
  is pending, not overdue, and due at least 300 ms before t.
\<close>

definition notif_inv :: "nat \<Rightarrow> nat \<Rightarrow> page \<Rightarrow> bool" where
  "notif_inv n t s \<longleftrightarrow>
     n < length (notifications s) \<and>
     (\<not> in_document (notifications s ! n) \<or>
      (\<exists>d\<le>t. (d, NotifRemove n) \<in> set (timers s)) \<or>
      (\<exists>D. now s \<le> D \<and> D + 300 \<le> t \<and> (D, NotifAutoDismiss n) \<in> set (timers s)))"

lemma in_remove1: "y \<in> set ts \<Longrightarrow> y \<noteq> x \<Longrightarrow> y \<in> set (remove1 x ts)"
  by simp

lemma notif_inv_step:
  assumes inv: "notif_inv n t s" and nx: "next_timer (timers s) = Some x" and le: "fst x \<le> t"
  shows "notif_inv n t (fire (snd x) (s\<lparr>now := max (now s) (fst x), timers := remove1 x (timers s)\<rparr>))"
proof -
  let ?s = "s\<lparr>now := max (now s) (fst x), timers := remove1 x (timers s)\<rparr>"
  let ?s' = "fire (snd x) ?s"
  have len: "n < length (notifications s)" using inv by (simp add: notif_inv_def)
  have len': "n < length (notifications ?s')" using len by simp
  have xin: "x \<in> set (timers s)" using nx by (rule next_timer_mem)
  have xmin: "\<forall>y\<in>set (timers s). fst x \<le> fst y" using nx by (rule next_timer_le)
  have mono: "set (remove1 x (timers s)) \<subseteq> set (timers ?s')"
    using fire_timers_mono [of ?s "snd x"] by simp
  consider (gone) "\<not> in_document (notifications s ! n)"
    | (rem) d where "d \<le> t" "(d, NotifRemove n) \<in> set (timers s)"
    | (auto) D where "now s \<le> D" "D + 300 \<le> t" "(D, NotifAutoDismiss n) \<in> set (timers s)"
    using inv unfolding notif_inv_def by blast
  then show ?thesis
  proof cases
    case gone
    then have "\<not> in_document (notifications ?s' ! n)"
      using fire_stays_removed [of n ?s "snd x"] len by simp
    with len' show ?thesis by (simp add: notif_inv_def)
  next
    case rem
    show ?thesis
    proof (cases "x = (d, NotifRemove n)")
      case True
      then have "\<not> in_document (notifications ?s' ! n)" using len by simp
      with len' show ?thesis by (simp add: notif_inv_def)
    next
      case False
      then have "(d, NotifRemove n) \<in> set (timers ?s')"
        using rem(2) mono in_remove1 [of "(d, NotifRemove n)" "timers s" x] by auto
      with rem(1) len' show ?thesis unfolding notif_inv_def by blast
    qed
  next
    case auto
    have "fst x \<le> D" using auto(3) xmin by force
    then have nw: "now ?s' \<le> D" using auto(1) by simp
    show ?thesis
    proof (cases "x = (D, NotifAutoDismiss n)")
      case True
      show ?thesis
      proof (cases "in_document (notifications s ! n)")
        case True
        have "(D + 300, NotifRemove n) \<in> set (timers ?s')"
          using \<open>x = (D, NotifAutoDismiss n)\<close> True len auto(1)
          by (simp add: setTimeout_def max_def)
        with auto(2) len' show ?thesis unfolding notif_inv_def by blast
      next
        case False
        then have "\<not> in_document (notifications ?s' ! n)"
          using \<open>x = (D, NotifAutoDismiss n)\<close> by simp
        with len' show ?thesis by (simp add: notif_inv_def)
      qed
    next
      case False
      then have "(D, NotifAutoDismiss n) \<in> set (timers ?s')"
        using auto(3) mono in_remove1 [of "(D, NotifAutoDismiss n)" "timers s" x] by auto
      with nw auto(2) len' show ?thesis unfolding notif_inv_def by blast
    qed
  qed
qed

lemma notif_inv_run:
  "notif_inv n t s \<Longrightarrow>
   n < length (notifications (run_until t s)) \<and> \<not> in_document (notifications (run_until t s) ! n)"
proof (induction t s rule: run_until.induct)
  case (1 t s)
  show ?case
  proof (cases "next_timer (timers s)")
    case None
    then have "timers s = []" by (simp add: next_timer_None)
    with "1.prems" None show ?thesis
      by (simp add: run_until.simps [of t s] notif_inv_def)
  next
    case (Some x)
    show ?thesis
    proof (cases "fst x \<le> t")
      case True
      have "notif_inv n t (fire (snd x) (s\<lparr>now := max (now s) (fst x), timers := remove1 x (timers s)\<rparr>))"
        using "1.prems" Some True by (rule notif_inv_step)
      from "1.IH" [OF Some True this] Some True show ?thesis
        by (simp add: run_until.simps [of t s])
    next
      case False
      have "\<forall>y\<in>set (timers s). fst x \<le> fst y" using Some by (rule next_timer_le)
      with False have "\<not> (\<exists>d\<le>t. (d, NotifRemove n) \<in> set (timers s))"
        and "\<not> (\<exists>D. now s \<le> D \<and> D + 300 \<le> t \<and> (D, NotifAutoDismiss n) \<in> set (timers s))"
        by fastforce+
      with "1.prems" Some False show ?thesis
        by (simp add: run_until.simps [of t s] notif_inv_def)
    qed
  qed
qed


lemma showNotification_inv:
  assumes "5300 \<le> d"
  shows "notif_inv (length (notifications s)) (now s + d) (showNotification msg type s)"
proof -
  have "(now s + 5000, NotifAutoDismiss (length (notifications s)))
          \<in> set (timers (showNotification msg type s))"
    by (simp add: showNotification_def setTimeout_def Let_def)
  moreover have "now (showNotification msg type s) \<le> now s + 5000"
    by (simp add: showNotification_def Let_def)
  moreover have "now s + 5000 + 300 \<le> now s + d" using assms by simp
  moreover have "length (notifications s) < length (notifications (showNotification msg type s))"
    by (simp add: showNotification_def Let_def)
  ultimately show ?thesis unfolding notif_inv_def by blast
qed

lemma click_close_inv:
  assumes "n < length (notifications s)" and "300 \<le> d"
  shows "notif_inv n (now s + d) (click_close n s)"
proof -
  have "(now s + 300, NotifRemove n) \<in> set (timers (click_close n s))"
    using assms(1) by (simp add: click_close_def setTimeout_def)
  moreover have "now s + 300 \<le> now s + d" using assms(2) by simp
  moreover have "n < length (notifications (click_close n s))"
    using assms(1) by (simp add: click_close_def)
  ultimately show ?thesis unfolding notif_inv_def by blast
qed

lemmas notif_eval = showNotification_def click_close_def setTimeout_def Let_def fresh_page_def

text \<open>
  C7. A notification is in the document when it is created. Left alone, it is out of the
  document 5300 ms later (the auto-dismiss callback runs at 5000 ms and schedules the
  removal 300 ms on), and remains out. Whatever the state of the page and however long the
  notification has been shown, 300 ms after an activation of its close button it is out of
  the document.
\<close>

theorem notification_dismissal:
  "in_document (notifications (showNotification msg type s) ! length (notifications s)) \<and>
   (5300 \<le> d \<longrightarrow>
      \<not> in_document (notifications (run_until (now s + d) (showNotification msg type s))
                        ! length (notifications s))) \<and>
   (n < length (notifications s) \<and> 300 \<le> d' \<longrightarrow>
      \<not> in_document (notifications (run_until (now s + d') (click_close n s)) ! n))"
proof (intro conjI impI)
  show "in_document (notifications (showNotification msg type s) ! length (notifications s))"
    by (simp add: showNotification_def Let_def)
next
  assume "5300 \<le> d"
  then show "\<not> in_document (notifications (run_until (now s + d) (showNotification msg type s))
                              ! length (notifications s))"
    using notif_inv_run [OF showNotification_inv] by blast
next
  assume "n < length (notifications s) \<and> 300 \<le> d'"
  then show "\<not> in_document (notifications (run_until (now s + d') (click_close n s)) ! n)"
    using notif_inv_run [OF click_close_inv] by blast
qed

theorem notification_dismissal_witness:
  "in_document (notifications (run_until 5299 (showNotification ''Hello'' ''info'' fresh_page)) ! 0) \<and>
   \<not> in_document (notifications (run_until 5300 (showNotification ''Hello'' ''info'' fresh_page)) ! 0) \<and>
   now (run_until 1000 (showNotification ''Hello'' ''info'' fresh_page)) = 1000 \<and>
   in_document (notifications
     (run_until 1299 (click_close 0 (run_until 1000 (showNotification ''Hello'' ''info'' fresh_page)))) ! 0) \<and>
   \<not> in_document (notifications
     (run_until 1300 (click_close 0 (run_until 1000 (showNotification ''Hello'' ''info'' fresh_page)))) ! 0)"
proof -
  let ?s1 = "run_until 1000 (showNotification ''Hello'' ''info'' fresh_page)"
  have a: "in_document (notifications (run_until 5299 (showNotification ''Hello'' ''info'' fresh_page)) ! 0)"
    by (simp add: run_until.simps notif_eval)
  have n1: "now ?s1 = 1000" by (simp add: run_until.simps notif_eval)
  have l1: "0 < length (notifications ?s1) \<and> (300::nat) \<le> 300"
    by (simp add: run_until.simps notif_eval)
  have l0: "length (notifications fresh_page) = 0" "now fresh_page = 0"
    by (simp_all add: fresh_page_def)
  have b: "\<not> in_document (notifications (run_until 5300 (showNotification ''Hello'' ''info'' fresh_page)) ! 0)"
    using notification_dismissal [of "''Hello''" "''info''" fresh_page 5300 0 0] l0 by simp
  have c: "in_document (notifications (run_until 1299 (click_close 0 ?s1)) ! 0)"
    by (simp add: run_until.simps notif_eval)
  have d: "\<not> in_document (notifications (run_until 1300 (click_close 0 ?s1)) ! 0)"
    using notification_dismissal [of "''x''" "''info''" ?s1 0 0 300] l1 n1 by simp
  show ?thesis using a b n1 c d by blast
qed

section \<open>Feature items\<close>

text \<open>A page with five feature items, two of them marked active by the markup.\<close>

definition five_items :: page where
  "five_items =
     fresh_page\<lparr>featureItems :=
       [\<lparr>classList = [''feature-item'', ''active''], style_position = [], style_overflow = [], ripples = 0\<rparr>,
        \<lparr>classList = [''feature-item''], style_position = [], style_overflow = [], ripples = 0\<rparr>,
        \<lparr>classList = [''feature-item'', ''active''], style_position = [], style_overflow = [], ripples = 0\<rparr>,
        \<lparr>classList = [''feature-item''], style_position = [], style_overflow = [], ripples = 0\<rparr>,
        \<lparr>classList = [''feature-item''], style_position = [], style_overflow = [], ripples = 0\<rparr>]\<rparr>"

lemma length_highlight [simp]: "length (highlight i items) = length items"
  by (simp add: highlight_def Let_def)

lemma active_highlight:
  assumes "i < length items" and "j < length items"
  shows "(''active'' \<in> set (classList (highlight i items ! j))) = (j = i)"
proof (cases "j = i")
  case True
  with assms show ?thesis
    by (simp add: highlight_def Let_def classList_add_def)
next
  case False
  with assms show ?thesis
    by (simp add: highlight_def Let_def classList_remove_def)
qed

lemma featureItems_showFeatureDetails [simp]:
  "featureItems (showFeatureDetails i s) = featureItems s"
  by (simp add: showFeatureDetails_def showNotification_def Let_def)

lemma featureItems_click_feature:
  "i < length (featureItems s) \<Longrightarrow>
   featureItems (click_feature i s) = highlight i (featureItems (createRippleEffect i s))"
  by (simp add: click_feature_def Let_def)

lemma length_createRippleEffect [simp]:
  "length (featureItems (createRippleEffect i s)) = length (featureItems s)"
  by (simp add: createRippleEffect_def Let_def)

lemma notifications_createRippleEffect [simp]:
  "notifications (createRippleEffect i s) = notifications s"
  by (simp add: createRippleEffect_def Let_def)

lemma filter_upt_eq: "i < n \<Longrightarrow> filter (\<lambda>j. j = i) [0..<n] = [i]"
proof (induction n)
  case 0
  then show ?case by simp
next
  case (Suc n)
  show ?case
  proof (cases "i < n")
    case True
    with Suc.IH show ?thesis by simp
  next
    case False
    with Suc.prems have "i = n" by simp
    moreover have "filter (\<lambda>j. j = n) [0..<n] = []" by (simp add: filter_empty_conv)
    ultimately show ?thesis by simp
  qed
qed

lemmas feature_eval =
  click_feature_def createRippleEffect_def highlight_def showFeatureDetails_def features_def
  showNotification_def setTimeout_def classList_add_def classList_remove_def Let_def
  five_items_def fresh_page_def

text \<open>
  C1. A click on feature item i, for i from 0 to 3, appends to the page one notification, in
  the document, of type info, whose message is the title of entry i of the descriptor
  table, a colon and a space, and the description of entry i. For an item with index 4 or
  more the lookup finds nothing: showFeatureDetails leaves the page as it is and the click
  adds no notification.
\<close>

theorem feature_click_notification:
  assumes "i < length (featureItems s)"
  shows "(i \<le> 3 \<longrightarrow>
            notifications (click_feature i s)
              = notifications s @
                [\<lparr>message = feature_title (features ! i) @ '': '' @ description (features ! i),
                  className = ''notification notification-info'',
                  transform = ''translateX(100%)'', in_document = True\<rparr>]) \<and>
         (4 \<le> i \<longrightarrow>
            notifications (click_feature i s) = notifications s \<and> showFeatureDetails i s = s)"
proof (intro conjI impI)
  assume "i \<le> 3"
  then have "i < length features" by (simp add: features_def)
  with assms show "notifications (click_feature i s)
      = notifications s @
        [\<lparr>message = feature_title (features ! i) @ '': '' @ description (features ! i),
          className = ''notification notification-info'',
          transform = ''translateX(100%)'', in_document = True\<rparr>]"
    by (simp add: click_feature_def showFeatureDetails_def showNotification_def Let_def)
next
  assume "4 \<le> i"
  then have "\<not> i < length features" by (simp add: features_def)
  with assms show "notifications (click_feature i s) = notifications s"
    by (simp add: click_feature_def showFeatureDetails_def Let_def)
next
  assume "4 \<le> i"
  then have "\<not> i < length features" by (simp add: features_def)
  then show "showFeatureDetails i s = s"
    by (simp add: showFeatureDetails_def)
qed

theorem feature_click_notification_witness:
  "length (featureItems five_items) = 5 \<and>
   map message (notifications (click_feature 0 five_items))
     = [''Modern Design: Clean and contemporary UK-focused design''] \<and>
   map message (notifications (click_feature 1 five_items))
     = [''Responsive Layout: Perfect display on all devices''] \<and>
   map message (notifications (click_feature 2 five_items))
     = [''Fast Loading: Optimized for quick page loads''] \<and>
   map message (notifications (click_feature 3 five_items))
     = [''Accessible: Built with accessibility in mind''] \<and>
   notifications (click_feature 4 five_items) = []"
proof -
  have len: "length (featureItems five_items) = 5" by (simp add: five_items_def)
  have none: "notifications five_items = []" by (simp add: five_items_def fresh_page_def)
  have m0: "map message (notifications (click_feature 0 five_items))
              = [''Modern Design: Clean and contemporary UK-focused design'']"
    using feature_click_notification [of 0 five_items] len none by (simp add: features_def)
  have m1: "map message (notifications (click_feature 1 five_items))
              = [''Responsive Layout: Perfect display on all devices'']"
    using feature_click_notification [of 1 five_items] len none by (simp add: features_def)
  have m2: "map message (notifications (click_feature 2 five_items))
              = [''Fast Loading: Optimized for quick page loads'']"
    using feature_click_notification [of 2 five_items] len none by (simp add: features_def)
  have m3: "map message (notifications (click_feature 3 five_items))
              = [''Accessible: Built with accessibility in mind'']"
    using feature_click_notification [of 3 five_items] len none by (simp add: features_def)
  have m4: "notifications (click_feature 4 five_items) = []"
    using feature_click_notification [of 4 five_items] len none by simp
  show ?thesis using len m0 m1 m2 m3 m4 by blast
qed

text \<open>
  C8. After a click on an existing feature item i, the items are as many as before, item j
  carries the class "active" exactly when j = i, and so the indices of the active items
  are the one-element list [i]: whatever was active before, at most one item is active
  after any click.
\<close>

theorem feature_click_exclusive:
  assumes "i < length (featureItems s)"
  shows "length (featureItems (click_feature i s)) = length (featureItems s) \<and>
         (\<forall>j<length (featureItems s).
             (''active'' \<in> set (classList (featureItems (click_feature i s) ! j))) = (j = i)) \<and>
         filter (\<lambda>j. ''active'' \<in> set (classList (featureItems (click_feature i s) ! j)))
           [0..<length (featureItems (click_feature i s))] = [i]"
proof -
  let ?items = "featureItems (createRippleEffect i s)"
  have fi: "featureItems (click_feature i s) = highlight i ?items"
    using assms by (rule featureItems_click_feature)
  have len: "length (featureItems (click_feature i s)) = length (featureItems s)"
    by (simp add: fi)
  have act: "\<forall>j<length (featureItems s).
      (''active'' \<in> set (classList (featureItems (click_feature i s) ! j))) = (j = i)"
    using assms by (simp add: fi active_highlight)
  have "filter (\<lambda>j. ''active'' \<in> set (classList (featureItems (click_feature i s) ! j)))
          [0..<length (featureItems s)]
        = filter (\<lambda>j. j = i) [0..<length (featureItems s)]"
    using act by (intro filter_cong) simp_all
  also have "\<dots> = [i]" using assms by (rule filter_upt_eq)
  finally show ?thesis using len act by simp
qed

theorem feature_click_exclusive_witness:
  "map classList (featureItems five_items)
     = [[''feature-item'', ''active''], [''feature-item''], [''feature-item'', ''active''],
        [''feature-item''], [''feature-item'']] \<and>
   map classList (featureItems (click_feature 1 five_items))
     = [[''feature-item''], [''feature-item'', ''active''], [''feature-item''],
        [''feature-item''], [''feature-item'']] \<and>
   filter (\<lambda>j. ''active'' \<in> set (classList (featureItems (click_feature 1 five_items) ! j)))
     [0..<length (featureItems (click_feature 1 five_items))] = [1]"
proof -
  have len: "1 < length (featureItems five_items)" by (simp add: five_items_def)
  have a: "map classList (featureItems five_items)
     = [[''feature-item'', ''active''], [''feature-item''], [''feature-item'', ''active''],
        [''feature-item''], [''feature-item'']]"
    by (simp add: five_items_def)
  have b: "map classList (featureItems (click_feature 1 five_items))
     = [[''feature-item''], [''feature-item'', ''active''], [''feature-item''],
        [''feature-item''], [''feature-item'']]"
    by (simp add: feature_eval)
  show ?thesis using feature_click_exclusive [OF len] a b by blast
qed

section \<open>Counters (lines 264 to 295)\<close>

subsection \<open>Numbers\<close>

text \<open>
  JavaScript numbers are IEEE 754 binary64 values. A finite one is a real number with a
  significand of 53 bits, and the script's \<^verbatim>\<open>+\<close> and \<^verbatim>\<open>/\<close> give the exact sum and quotient
  rounded to the nearest such number, ties to the even significand; the comparison
  \<^verbatim>\<open><\<close> and \<^verbatim>\<open>Math.floor\<close> are exact.

  \<open>round_even\<close> rounds to the nearest integer, ties to even. \<open>round53\<close> rounds a positive
  real to 53 significant bits: it scales by powers of two into the range from \<open>2^52\<close> to
  \<open>2^53\<close>, where the representable numbers are the integers, rounds there and scales back.
  The exponent is not bounded: the model has no subnormal numbers and no Infinity. The
  numbers a counter with a positive integer target computes are at least 1/126, so not
  subnormal; where a sum overflows to Infinity, the model holds a finite number larger
  than every double instead, and both fail the test \<^verbatim>\<open>current < target\<close>.
\<close>

definition round_even :: "real \<Rightarrow> int" where
  "round_even y =
     (let f = \<lfloor>y\<rfloor>; r = y - of_int f
      in if r < 1 / 2 then f
         else if 1 / 2 < r then f + 1
         else if even f then f else f + 1)"

function round53 :: "real \<Rightarrow> real" where
  "round53 x =
     (if x \<le> 0 then 0
      else if 2 ^ 53 \<le> x then 2 * round53 (x / 2)
      else if x < 2 ^ 52 then round53 (2 * x) / 2
      else of_int (round_even x))"
  by pat_completeness auto
termination
proof (relation "measure (\<lambda>x. nat \<bar>\<lfloor>log 2 x\<rfloor> - 52\<bar>)")
  show "wf (measure (\<lambda>x. nat \<bar>\<lfloor>log 2 x\<rfloor> - 52\<bar>))" by simp
next
  fix x :: real
  assume "\<not> x \<le> 0" and big: "2 ^ 53 \<le> x"
  then have pos: "0 < x" by simp
  have "(2::real) powr 53 \<le> x" using big by (simp add: powr_realpow [symmetric])
  then have "53 \<le> log 2 x" using pos by (simp add: le_log_iff)
  then have a: "53 \<le> \<lfloor>log 2 x\<rfloor>" by (simp add: le_floor_iff)
  have "log 2 (x / 2) = log 2 x - 1" using pos by (simp add: log_divide)
  then have b: "\<lfloor>log 2 (x / 2)\<rfloor> = \<lfloor>log 2 x\<rfloor> - 1" by simp
  show "(x / 2, x) \<in> measure (\<lambda>x. nat \<bar>\<lfloor>log 2 x\<rfloor> - 52\<bar>)"
    using a b by simp
next
  fix x :: real
  assume nz: "\<not> x \<le> 0" and "\<not> 2 ^ 53 \<le> x" and small: "x < 2 ^ 52"
  then have pos: "0 < x" by simp
  have "x < (2::real) powr 52" using small by (simp add: powr_realpow [symmetric])
  then have "log 2 x < 52" using pos by (simp add: log_less_iff)
  then have a: "\<lfloor>log 2 x\<rfloor> < 52" by (simp add: floor_less_iff)
  have "log 2 (2 * x) = log 2 x + 1" using pos by (simp add: log_mult)
  then have b: "\<lfloor>log 2 (2 * x)\<rfloor> = \<lfloor>log 2 x\<rfloor> + 1" by simp
  show "(2 * x, x) \<in> measure (\<lambda>x. nat \<bar>\<lfloor>log 2 x\<rfloor> - 52\<bar>)"
    using a b by simp
qed

declare round53.simps [simp del]

definition rnd :: "real \<Rightarrow> real" where
  "rnd x = (if x < 0 then - round53 (- x) else round53 x)"

text \<open>
  The two rounded operations are a parameter of the counter, so that what does not depend
  on the rounding is proved for every rounding; \<open>double\<close> is the arithmetic of the script.
\<close>

record arith =
  add :: "real \<Rightarrow> real \<Rightarrow> real"
  divide :: "real \<Rightarrow> real \<Rightarrow> real"

definition double :: arith where
  "double = \<lparr>add = (\<lambda>x y. rnd (x + y)), divide = (\<lambda>x y. rnd (x / y))\<rparr>"

text \<open>
  \<^verbatim>\<open>parseInt\<close> of an attribute that is a decimal integer n is the number nearest to n
  (for more than 20 significant digits an implementation may first replace the later
  digits by zeros). An integer beyond the largest double parses to Infinity, and an
  attribute that is no number to NaN; both are outside the model.
\<close>

definition max_double :: real where
  "max_double = (2 ^ 53 - 1) * 2 ^ 971"

definition parseInt :: "int \<Rightarrow> real" where
  "parseInt n = rnd (of_int n)"

subsection \<open>The counter\<close>

text \<open>
  A counter element with the variables of its closure: \<open>current\<close>, the number last
  written to \<^verbatim>\<open>textContent\<close> (before the animation, the number the markup shows), the
  callbacks registered with \<^verbatim>\<open>requestAnimationFrame\<close> and not yet run, and whether its
  observer still observes it. The target is \<^verbatim>\<open>parseInt\<close> of the data-count attribute.
\<close>

record counter =
  current :: real
  textContent :: real
  raf_pending :: nat
  observing :: bool

definition increment :: "arith \<Rightarrow> real \<Rightarrow> real" where
  "increment ar target = divide ar target (divide ar 2000 16)"

definition updateCounter :: "arith \<Rightarrow> real \<Rightarrow> counter \<Rightarrow> counter" where
  "updateCounter ar target c =
     (let current' = add ar (current c) (increment ar target)
      in if current' < target then
           c\<lparr>current := current', textContent := of_int \<lfloor>current'\<rfloor>,
             raf_pending := Suc (raf_pending c)\<rparr>
         else c\<lparr>current := current', textContent := target\<rparr>)"

text \<open>An animation frame runs the callbacks registered before it; those that they register
  run in the next frame.\<close>

definition animation_frame :: "arith \<Rightarrow> real \<Rightarrow> counter \<Rightarrow> counter" where
  "animation_frame ar target c = (updateCounter ar target ^^ raf_pending c) (c\<lparr>raf_pending := 0\<rparr>)"

text \<open>The observer's callback (lines 284 to 291), given the \<^verbatim>\<open>isIntersecting\<close> flags of
  the entries of one batch; each counter has an observer of its own, so every entry is
  about this counter. The browser makes entries only for observed elements.\<close>

fun observer_callback :: "arith \<Rightarrow> real \<Rightarrow> bool list \<Rightarrow> counter \<Rightarrow> counter" where
  "observer_callback ar target [] c = c"
| "observer_callback ar target (isIntersecting # entries) c =
     observer_callback ar target entries
       (if isIntersecting then (updateCounter ar target c)\<lparr>observing := False\<rparr> else c)"

definition deliver :: "arith \<Rightarrow> real \<Rightarrow> bool list \<Rightarrow> counter \<Rightarrow> counter" where
  "deliver ar target entries c = (if observing c then observer_callback ar target entries c else c)"

definition initial_counter :: "real \<Rightarrow> counter" where
  "initial_counter shown = \<lparr>current = 0, textContent = shown, raf_pending = 0, observing = True\<rparr>"

text \<open>The counter k animation frames after the batch that reports it visible.\<close>

definition counter_at :: "arith \<Rightarrow> real \<Rightarrow> real \<Rightarrow> nat \<Rightarrow> counter" where
  "counter_at ar target shown k =
     (animation_frame ar target ^^ k) (deliver ar target [True] (initial_counter shown))"

text \<open>After any call of updateCounter the counter is in one of two conditions.\<close>

definition running :: "real \<Rightarrow> counter \<Rightarrow> bool" where
  "running target c \<longleftrightarrow>
     current c < target \<and> textContent c = of_int \<lfloor>current c\<rfloor> \<and> raf_pending c = 1"

definition stopped :: "real \<Rightarrow> counter \<Rightarrow> bool" where
  "stopped target c \<longleftrightarrow>
     target \<le> current c \<and> textContent c = target \<and> raf_pending c = 0"

lemma updateCounter_cases:
  "raf_pending c = 0 \<Longrightarrow>
   running target (updateCounter ar target c) \<or> stopped target (updateCounter ar target c)"
  by (simp add: updateCounter_def Let_def running_def stopped_def)

lemma frame_running:
  "running target c \<Longrightarrow> animation_frame ar target c = updateCounter ar target (c\<lparr>raf_pending := 0\<rparr>)"
  by (simp add: animation_frame_def running_def)

lemma frame_stopped:
  "stopped target c \<Longrightarrow> animation_frame ar target c = c"
  by (simp add: animation_frame_def stopped_def)

lemma counter_at_Suc:
  "counter_at ar target shown (Suc k) = animation_frame ar target (counter_at ar target shown k)"
  by (simp add: counter_at_def)

lemma counter_at_0:
  "counter_at ar target shown 0 = (updateCounter ar target (initial_counter shown))\<lparr>observing := False\<rparr>"
  by (simp add: counter_at_def deliver_def initial_counter_def)

lemma running_observing [simp]: "running target (c\<lparr>observing := b\<rparr>) = running target c"
  by (simp add: running_def)

lemma stopped_observing [simp]: "stopped target (c\<lparr>observing := b\<rparr>) = stopped target c"
  by (simp add: stopped_def)

lemma counter_at_state:
  "running target (counter_at ar target shown k) \<or> stopped target (counter_at ar target shown k)"
proof (induction k)
  case 0
  have "raf_pending (initial_counter shown) = 0" by (simp add: initial_counter_def)
  from updateCounter_cases [OF this] show ?case by (simp add: counter_at_0)
next
  case (Suc k)
  from Suc show ?case
  proof
    assume r: "running target (counter_at ar target shown k)"
    have "raf_pending ((counter_at ar target shown k)\<lparr>raf_pending := 0\<rparr>) = 0" by simp
    from updateCounter_cases [OF this] show ?thesis
      by (simp add: counter_at_Suc frame_running [OF r])
  next
    assume s: "stopped target (counter_at ar target shown k)"
    then show ?thesis by (simp add: counter_at_Suc frame_stopped [OF s])
  qed
qed

lemma stopped_stays:
  "stopped target (counter_at ar target shown k) \<Longrightarrow>
   counter_at ar target shown (k + m) = counter_at ar target shown k"
proof (induction m)
  case 0
  show ?case by simp
next
  case (Suc m)
  then show ?case by (simp add: counter_at_Suc frame_stopped)
qed

lemma floor_below: "(x::real) < t \<Longrightarrow> of_int \<lfloor>x\<rfloor> < t"
  using of_int_floor_le [of x] by linarith

subsection \<open>The observers\<close>

text \<open>
  The options given to the two \<^verbatim>\<open>IntersectionObserver\<close> constructors: an object for the
  entrance animations (lines 31 to 34), none for the counters (line 291). Without options
  the browser takes a threshold of 0 and no root margin.
\<close>

record observer_init =
  threshold :: real
  rootMargin :: string

definition animations_observer_options :: "observer_init option" where
  "animations_observer_options = Some \<lparr>threshold = 1 / 10, rootMargin = ''0px 0px -50px 0px''\<rparr>"

definition counters_observer_options :: "observer_init option" where
  "counters_observer_options = None"

definition observer_defaults :: observer_init where
  "observer_defaults = \<lparr>threshold = 0, rootMargin = ''0px 0px 0px 0px''\<rparr>"

definition effective_options :: "observer_init option \<Rightarrow> observer_init" where
  "effective_options opts = (case opts of None \<Rightarrow> observer_defaults | Some given \<Rightarrow> given)"

text \<open>What happens to a counter: an animation frame, or a batch of entries from the browser.\<close>

datatype counter_event = Frame | Entries "bool list"

fun counter_step :: "arith \<Rightarrow> real \<Rightarrow> counter_event \<Rightarrow> counter \<Rightarrow> counter" where
  "counter_step ar target Frame c = animation_frame ar target c"
| "counter_step ar target (Entries entries) c = deliver ar target entries c"

fun run_events :: "arith \<Rightarrow> real \<Rightarrow> counter_event list \<Rightarrow> counter \<Rightarrow> counter" where
  "run_events ar target [] c = c"
| "run_events ar target (e # es) c = run_events ar target es (counter_step ar target e c)"

text \<open>An event is quiet when it reports no intersection.\<close>

fun quiet :: "counter_event \<Rightarrow> bool" where
  "quiet Frame = True"
| "quiet (Entries entries) = (True \<notin> set entries)"

lemma callback_quiet: "True \<notin> set entries \<Longrightarrow> observer_callback ar target entries c = c"
  by (induction entries arbitrary: c) auto

lemma callback_once:
  "count_list entries True = 1 \<Longrightarrow>
   observer_callback ar target entries c = (updateCounter ar target c)\<lparr>observing := False\<rparr>"
proof (induction entries arbitrary: c)
  case Nil
  then show ?case by simp
next
  case (Cons e entries)
  show ?case
  proof (cases e)
    case True
    with Cons.prems have "True \<notin> set entries" by (simp add: count_list_0_iff)
    with True show ?thesis by (simp add: callback_quiet)
  next
    case False
    with Cons show ?thesis by simp
  qed
qed

lemma run_events_append:
  "run_events ar target (xs @ ys) c = run_events ar target ys (run_events ar target xs c)"
  by (induction xs arbitrary: c) auto

lemma run_events_quiet:
  "list_all quiet evs \<Longrightarrow> raf_pending c = 0 \<Longrightarrow> run_events ar target evs c = c"
proof (induction evs)
  case Nil
  show ?case by simp
next
  case (Cons e evs)
  then have "counter_step ar target e c = c"
    by (cases e) (simp_all add: animation_frame_def deliver_def callback_quiet)
  with Cons show ?case by simp
qed

lemma run_events_unobserved:
  "\<not> observing c \<Longrightarrow>
   run_events ar target evs c = (animation_frame ar target ^^ count_list evs Frame) c \<and>
   \<not> observing (run_events ar target evs c)"
proof (induction evs arbitrary: c)
  case Nil
  then show ?case by simp
next
  case (Cons e evs)
  show ?case
  proof (cases e)
    case Frame
    have "observing (animation_frame ar target c) = observing c"
    proof -
      have "\<And>n d. observing ((updateCounter ar target ^^ n) d) = observing d"
      proof -
        fix n d show "observing ((updateCounter ar target ^^ n) d) = observing d"
          by (induction n) (simp_all add: updateCounter_def Let_def)
      qed
      then show ?thesis by (simp add: animation_frame_def)
    qed
    with Cons.prems have "\<not> observing (animation_frame ar target c)" by simp
    from Cons.IH [OF this]
    have a: "run_events ar target evs (animation_frame ar target c)
               = (animation_frame ar target ^^ count_list evs Frame) (animation_frame ar target c)"
      and b: "\<not> observing (run_events ar target evs (animation_frame ar target c))"
      by blast+
    have "run_events ar target (e # evs) c = run_events ar target evs (animation_frame ar target c)"
      using Frame by simp
    moreover have "(animation_frame ar target ^^ count_list (e # evs) Frame) c
        = (animation_frame ar target ^^ count_list evs Frame) (animation_frame ar target c)"
      using Frame by (simp add: funpow_swap1)
    ultimately show ?thesis using a b by simp
  next
    case (Entries entries)
    with Cons.prems have "counter_step ar target e c = c" by (simp add: deliver_def)
    from Cons.IH [OF Cons.prems]
    have a: "run_events ar target evs c = (animation_frame ar target ^^ count_list evs Frame) c"
      and b: "\<not> observing (run_events ar target evs c)"
      by blast+
    have "run_events ar target (e # evs) c = run_events ar target evs c"
      using Entries \<open>counter_step ar target e c = c\<close> by simp
    moreover have "count_list (e # evs) Frame = count_list evs Frame"
      using Entries by simp
    ultimately show ?thesis using a b by simp
  qed
qed

subsection \<open>The rounding error and the progress of the animation\<close>

lemma round_even_error: "\<bar>of_int (round_even y) - y\<bar> \<le> 1 / 2"
proof -
  have lo: "of_int \<lfloor>y\<rfloor> \<le> y" and hi: "y < of_int \<lfloor>y\<rfloor> + 1"
    by (simp_all add: floor_correct)
  show ?thesis
    unfolding round_even_def Let_def using lo hi by (auto simp: abs_le_iff)
qed

lemma round53_error: "0 < x \<Longrightarrow> \<bar>round53 x - x\<bar> \<le> x / 9007199254740992"
proof (induction x rule: round53.induct)
  case (1 x)
  show ?case
  proof (cases "2 ^ 53 \<le> x")
    case True
    have "\<bar>round53 (x / 2) - x / 2\<bar> \<le> x / 2 / 9007199254740992"
      using "1.IH"(1) "1.prems" True by simp
    then have "\<bar>2 * round53 (x / 2) - x\<bar> \<le> x / 9007199254740992" by argo
    moreover have "round53 x = 2 * round53 (x / 2)"
      using "1.prems" True by (simp add: round53.simps [of x])
    ultimately show ?thesis by (simp only:)
  next
    case False
    show ?thesis
    proof (cases "x < 2 ^ 52")
      case True
      have "\<bar>round53 (2 * x) - 2 * x\<bar> \<le> 2 * x / 9007199254740992"
        using "1.IH"(2) "1.prems" False True by simp
      then have "\<bar>round53 (2 * x) / 2 - x\<bar> \<le> x / 9007199254740992" by argo
      moreover have "round53 x = round53 (2 * x) / 2"
        using "1.prems" False True by (simp add: round53.simps [of x])
      ultimately show ?thesis by (simp only:)
    next
      case big: False
      have r: "round53 x = of_int (round_even x)"
        using "1.prems" False big by (simp add: round53.simps [of x])
      have "4503599627370496 \<le> x" using big by simp
      with round_even_error [of x] show ?thesis unfolding r by argo
    qed
  qed
qed

lemma rnd_bounds:
  assumes "0 < x"
  shows "x - x / 9007199254740992 \<le> rnd x" and "rnd x \<le> x + x / 9007199254740992"
proof -
  have "\<bar>rnd x - x\<bar> \<le> x / 9007199254740992"
    using round53_error [OF assms] assms by (simp add: rnd_def)
  then show "x - x / 9007199254740992 \<le> rnd x" and "rnd x \<le> x + x / 9007199254740992"
    by argo+
qed

lemma parseInt_pos: "0 < n \<Longrightarrow> 0 < parseInt n"
proof -
  assume "0 < n"
  then have pos: "(0::real) < of_int n" by simp
  from rnd_bounds(1) [OF pos] pos show ?thesis
    unfolding parseInt_def by argo
qed

lemma double_frame_length: "divide double 2000 16 = 125"
  by (simp add: double_def rnd_def round53.simps round_even_def)

lemma double_increment:
  assumes "0 < t"
  shows "t / 125 - t / 125 / 9007199254740992 \<le> increment double t"
    and "increment double t \<le> t / 125 + t / 125 / 9007199254740992"
proof -
  have inc: "increment double t = rnd (t / 125)"
    using double_frame_length by (simp add: increment_def double_def)
  have pos: "0 < t / 125" using assms by simp
  show "t / 125 - t / 125 / 9007199254740992 \<le> increment double t"
    unfolding inc by (rule rnd_bounds(1) [OF pos])
  show "increment double t \<le> t / 125 + t / 125 / 9007199254740992"
    unfolding inc by (rule rnd_bounds(2) [OF pos])
qed

lemma double_gain:
  assumes "0 < t" and "0 \<le> c" and "c < t"
  shows "c + t / 126 \<le> add double c (increment double t)"
proof -
  define i where "i = increment double t"
  have lo: "t / 125 - t / 125 / 9007199254740992 \<le> i"
    and hi: "i \<le> t / 125 + t / 125 / 9007199254740992"
    unfolding i_def using double_increment [OF assms(1)] by blast+
  have ipos: "0 < i" using lo assms(1) by argo
  then have "0 < c + i" using assms(2) by argo
  from rnd_bounds(1) [OF this]
  have "c + i - (c + i) / 9007199254740992 \<le> rnd (c + i)" .
  then have "c + t / 126 \<le> rnd (c + i)"
    using lo assms by argo
  then show ?thesis by (simp add: double_def i_def)
qed


lemma running_not_stopped: "running target c \<Longrightarrow> \<not> stopped target c"
  by (simp add: running_def stopped_def)

lemma running_before:
  assumes "running target (counter_at ar target shown (Suc k))"
  shows "running target (counter_at ar target shown k)"
proof (rule ccontr)
  assume "\<not> running target (counter_at ar target shown k)"
  with counter_at_state [of target ar shown k]
  have s: "stopped target (counter_at ar target shown k)" by blast
  then have "counter_at ar target shown (Suc k) = counter_at ar target shown k"
    by (simp add: counter_at_Suc frame_stopped)
  with s assms show False by (simp add: running_not_stopped)
qed

lemma current_next:
  assumes "running target (counter_at ar target shown k)"
  shows "current (counter_at ar target shown (Suc k))
           = add ar (current (counter_at ar target shown k)) (increment ar target)"
  by (simp add: counter_at_Suc frame_running [OF assms] updateCounter_def Let_def)

lemma double_running_lower:
  assumes "0 < t"
  shows "running t (counter_at double t shown k) \<Longrightarrow>
         real (k + 1) * t / 126 \<le> current (counter_at double t shown k)"
proof (induction k)
  case 0
  have "current (counter_at double t shown 0) = add double 0 (increment double t)"
    by (simp add: counter_at_0 updateCounter_def initial_counter_def Let_def)
  moreover have "0 + t / 126 \<le> add double 0 (increment double t)"
    using assms by (intro double_gain) simp_all
  ultimately show ?case by simp
next
  case (Suc k)
  let ?c = "current (counter_at double t shown k)"
  have r: "running t (counter_at double t shown k)"
    using Suc.prems by (rule running_before)
  have lo: "real (k + 1) * t / 126 \<le> ?c" using Suc.IH [OF r] .
  have nonneg: "0 \<le> ?c"
  proof -
    have "0 \<le> real (k + 1) * t / 126" using assms by simp
    with lo show ?thesis by linarith
  qed
  have lt: "?c < t" using r by (simp add: running_def)
  have "?c + t / 126 \<le> add double ?c (increment double t)"
    using assms nonneg lt by (rule double_gain)
  moreover have "real (Suc k + 1) * t / 126 = real (k + 1) * t / 126 + t / 126"
    by (simp add: field_simps)
  ultimately show ?case
    using lo unfolding current_next [OF r] by linarith
qed

lemma double_stops:
  assumes "0 < t"
  shows "stopped t (counter_at double t shown 125)"
proof (rule ccontr)
  assume "\<not> stopped t (counter_at double t shown 125)"
  with counter_at_state [of t double shown 125]
  have r: "running t (counter_at double t shown 125)" by blast
  from double_running_lower [OF assms r]
  have "t \<le> current (counter_at double t shown 125)" by simp
  with r show False by (simp add: running_def)
qed

lemma double_shown_step:
  assumes "0 < t"
  shows "textContent (counter_at double t shown k) \<le> textContent (counter_at double t shown (Suc k))"
proof -
  let ?c = "counter_at double t shown k"
  from counter_at_state [of t double shown k] show ?thesis
  proof
    assume s: "stopped t ?c"
    then show ?thesis by (simp add: counter_at_Suc frame_stopped)
  next
    assume r: "running t ?c"
    let ?x = "add double (current ?c) (increment double t)"
    have lt: "current ?c < t" and cur: "textContent ?c = of_int \<lfloor>current ?c\<rfloor>"
      using r by (simp_all add: running_def)
    have "real (k + 1) * t / 126 \<le> current ?c" using assms r by (rule double_running_lower)
    moreover have "0 \<le> real (k + 1) * t / 126" using assms by simp
    ultimately have nonneg: "0 \<le> current ?c" by linarith
    have "current ?c + t / 126 \<le> ?x" using assms nonneg lt by (rule double_gain)
    then have le: "current ?c \<le> ?x" using assms by simp
    have nxt: "textContent (counter_at double t shown (Suc k))
                 = (if ?x < t then of_int \<lfloor>?x\<rfloor> else t)"
      by (simp add: counter_at_Suc frame_running [OF r] updateCounter_def Let_def)
    show ?thesis
    proof (cases "?x < t")
      case True
      have "\<lfloor>current ?c\<rfloor> \<le> \<lfloor>?x\<rfloor>" using le by (rule floor_mono)
      with nxt cur True show ?thesis by simp
    next
      case False
      have "of_int \<lfloor>current ?c\<rfloor> < t" using lt by (rule floor_below)
      with nxt cur False show ?thesis by simp
    qed
  qed
qed

lemma double_shown_mono:
  assumes "0 < t" and "i \<le> j"
  shows "textContent (counter_at double t shown i) \<le> textContent (counter_at double t shown j)"
  using assms(2)
proof (induction j)
  case 0
  then show ?case by simp
next
  case (Suc j)
  show ?case
  proof (cases "i = Suc j")
    case True
    then show ?thesis by simp
  next
    case False
    with Suc.prems have "i \<le> j" by simp
    from Suc.IH [OF this] double_shown_step [OF assms(1), of shown j] show ?thesis by simp
  qed
qed

lemma double_first_shown:
  assumes "0 < t"
  shows "0 \<le> textContent (counter_at double t shown 0)"
proof -
  have "0 + t / 126 \<le> add double 0 (increment double t)"
    using assms by (intro double_gain) simp_all
  then have "0 \<le> add double 0 (increment double t)" using assms by simp
  then show ?thesis
    using assms by (simp add: counter_at_0 updateCounter_def initial_counter_def Let_def)
qed

lemma round53_twice: "0 < x \<Longrightarrow> round53 (2 * x) = 2 * round53 x"
proof (cases "x < 2 ^ 52")
  case True
  assume "0 < x"
  with True show ?thesis by (simp add: round53.simps [of x])
next
  case False
  assume "0 < x"
  with False show ?thesis by (simp add: round53.simps [of "2 * x"])
qed

lemma round53_scaled: "0 < x \<Longrightarrow> round53 (x * 2 ^ e) = round53 x * 2 ^ e"
proof (induction e)
  case 0
  show ?case by simp
next
  case (Suc e)
  have "0 < x * 2 ^ e" using Suc.prems by simp
  from round53_twice [OF this] Suc show ?case by (simp add: mult.commute mult.left_commute)
qed

text \<open>Rounding a number whose place in the binary scale is known.\<close>

lemma rnd_at:
  assumes "0 < x" and "2 ^ 52 \<le> x * 2 ^ e" and "x * 2 ^ e < 2 ^ 53"
  shows "rnd x = of_int (round_even (x * 2 ^ e)) / 2 ^ e"
proof -
  have "round53 (x * 2 ^ e) = of_int (round_even (x * 2 ^ e))"
    using assms by (simp add: round53.simps [of "x * 2 ^ e"])
  then have "round53 x * 2 ^ e = of_int (round_even (x * 2 ^ e))"
    using round53_scaled [OF assms(1), of e] by simp
  then have "round53 x = of_int (round_even (x * 2 ^ e)) / 2 ^ e"
    by (simp add: field_simps)
  then show ?thesis using assms(1) by (simp add: rnd_def)
qed

lemmas rnd_eval =
  rnd_at [of _ 46] rnd_at [of _ 47] rnd_at [of _ 48] rnd_at [of _ 49] rnd_at [of _ 50]
  rnd_at [of _ 51] rnd_at [of _ 52] rnd_at [of _ 53] rnd_at [of _ 54]

lemma parseInt_50: "parseInt 50 = 50"
  by (simp add: parseInt_def rnd_eval round_even_def)

lemma increment_50: "increment double 50 = 3602879701896397 / 9007199254740992"
  by (simp add: increment_def double_def rnd_eval round_even_def)

lemma add_double: "add double x y = rnd (x + y)"
  by (simp add: double_def)

lemmas double_eval =
  counter_at_def deliver_def initial_counter_def animation_frame_def updateCounter_def
  increment_50 add_double rnd_eval round_even_def Let_def

text \<open>
  The counter with the attribute 50, evaluated: the increment is the number nearest to
  0.4, a little above it; the sums are rounded, and after ten calls the accumulated value
  is just below 4 and after 125 calls just below 50.
\<close>

lemma frames_50:
  "counter_at double 50 0 0
     = \<lparr>current = 3602879701896397 / 9007199254740992, textContent = 0,
        raf_pending = 1, observing = False\<rparr>"
  "counter_at double 50 0 2
     = \<lparr>current = 5404319552844596 / 4503599627370496, textContent = 1,
        raf_pending = 1, observing = False\<rparr>"
  "counter_at double 50 0 9
     = \<lparr>current = 9007199254740991 / 2251799813685248, textContent = 3,
        raf_pending = 1, observing = False\<rparr>"
  "counter_at double 50 0 124
     = \<lparr>current = 439804651110399 / 8796093022208, textContent = 49,
        raf_pending = 1, observing = False\<rparr>"
  by (simp_all add: double_eval eval_nat_numeral)

lemma frame_50_last:
  "counter_at double 50 0 125
     = \<lparr>current = 7093169413108515 / 140737488355328, textContent = 50,
        raf_pending = 0, observing = False\<rparr>"
proof -
  have "counter_at double 50 0 (Suc 124) = animation_frame double 50 (counter_at double 50 0 124)"
    by (rule counter_at_Suc)
  then show ?thesis
    by (simp add: frames_50(4) animation_frame_def updateCounter_def increment_50 add_double
        rnd_eval round_even_def Let_def)
qed

text \<open>Rounding at work: 0.1 + 0.2 is not 0.3, and above \<open>2^53\<close> odd integers are not numbers.\<close>

lemma rnd_examples:
  "rnd (rnd (1 / 10) + rnd (2 / 10)) = 5404319552844596 / 18014398509481984"
  "rnd (3 / 10) = 5404319552844595 / 18014398509481984"
  "parseInt 9007199254740993 = 9007199254740992"
  "parseInt 9007199254740995 = 9007199254740996"
  by (simp_all add: parseInt_def rnd_def round53.simps round_even_def)



text \<open>
  C10. For the target parsed from a positive integer attribute (one within the range of
  the doubles), in the arithmetic of the script, the values shown in successive frames
  never decrease: the first is at least 0,
  the initial accumulated value, a later frame never shows less than an earlier one, and
  from frame 125 on the value shown is the target.
\<close>

theorem counter_shown_nondecreasing:
  assumes "0 < n" and "of_int n \<le> max_double" and "i \<le> j"
  shows "0 \<le> textContent (counter_at double (parseInt n) shown 0) \<and>
         textContent (counter_at double (parseInt n) shown i)
           \<le> textContent (counter_at double (parseInt n) shown j) \<and>
         textContent (counter_at double (parseInt n) shown (125 + m)) = parseInt n"
proof -
  have pos: "0 < parseInt n" using assms(1) by (rule parseInt_pos)
  have s: "stopped (parseInt n) (counter_at double (parseInt n) shown 125)"
    using pos by (rule double_stops)
  have "counter_at double (parseInt n) shown (125 + m) = counter_at double (parseInt n) shown 125"
    using s by (rule stopped_stays)
  then have "textContent (counter_at double (parseInt n) shown (125 + m)) = parseInt n"
    using s by (simp add: stopped_def)
  then show ?thesis
    using double_first_shown [OF pos] double_shown_mono [OF pos assms(3)] by blast
qed

theorem counter_shown_nondecreasing_witness:
  "(0::int) < 50 \<and> of_int 50 \<le> max_double \<and> (9::nat) \<le> 124 \<and>
   0 \<le> textContent (counter_at double 50 0 0) \<and>
   textContent (counter_at double 50 0 9) \<le> textContent (counter_at double 50 0 124) \<and>
   textContent (counter_at double 50 0 9) = 3 \<and>
   textContent (counter_at double 50 0 124) = 49 \<and>
   textContent (counter_at double 50 0 (125 + 0)) = 50"
proof -
  have pos: "(0::int) < 50" by simp
  have fin: "of_int 50 \<le> max_double" by (simp add: max_double_def)
  have le: "(9::nat) \<le> 124" by simp
  note inst = counter_shown_nondecreasing [OF pos fin le, of 0 0, unfolded parseInt_50]
  have v9: "textContent (counter_at double 50 0 9) = 3" by (simp add: frames_50(3))
  have v124: "textContent (counter_at double 50 0 124) = 49" by (simp add: frames_50(4))
  show ?thesis using inst pos fin le v9 v124 by blast
qed

text \<open>
  C5, as stated, fails: the counters' observer is constructed without options, so it works
  with the browser's defaults, a threshold of 0 and no root margin, and not with the 10%
  threshold and the -50px bottom margin of the entrance animations' observer.
\<close>

theorem counter_trigger_policy_counterexample:
  "effective_options counters_observer_options
     = \<lparr>threshold = 0, rootMargin = ''0px 0px 0px 0px''\<rparr> \<and>
   effective_options animations_observer_options
     = \<lparr>threshold = 1 / 10, rootMargin = ''0px 0px -50px 0px''\<rparr> \<and>
   effective_options counters_observer_options \<noteq> effective_options animations_observer_options"
  by (simp add: effective_options_def counters_observer_options_def animations_observer_options_def
      observer_defaults_def)

text \<open>
  C5, amended. The counters' observer has the default options (threshold 0, no root
  margin). Frames and batches without an intersecting entry leave an unstarted counter as
  it is. The first batch with an intersecting entry (one such entry in it) calls
  updateCounter once and unobserves the element; from then on only animation frames act
  on the counter, and no later batch, whatever it holds, starts the animation again.
\<close>

theorem counter_trigger_one_shot:
  assumes "list_all quiet before" and "count_list entries True = 1"
  shows "effective_options counters_observer_options
           = \<lparr>threshold = 0, rootMargin = ''0px 0px 0px 0px''\<rparr> \<and>
         run_events ar target before (initial_counter shown) = initial_counter shown \<and>
         run_events ar target (before @ [Entries entries]) (initial_counter shown)
           = (updateCounter ar target (initial_counter shown))\<lparr>observing := False\<rparr> \<and>
         run_events ar target (before @ [Entries entries] @ later) (initial_counter shown)
           = counter_at ar target shown (count_list later Frame) \<and>
         \<not> observing (run_events ar target (before @ [Entries entries] @ later) (initial_counter shown))"
proof -
  let ?c0 = "initial_counter shown"
  let ?c1 = "(updateCounter ar target ?c0)\<lparr>observing := False\<rparr>"
  have p0: "raf_pending ?c0 = 0" by (simp add: initial_counter_def)
  have q: "run_events ar target before ?c0 = ?c0"
    using assms(1) p0 by (rule run_events_quiet)
  have d: "deliver ar target entries ?c0 = ?c1"
    using callback_once [OF assms(2)] by (simp add: deliver_def initial_counter_def)
  have s: "run_events ar target (before @ [Entries entries]) ?c0 = ?c1"
    by (simp add: run_events_append q d)
  have c1: "counter_at ar target shown 0 = ?c1" by (rule counter_at_0)
  have un: "\<not> observing ?c1" by simp
  have l: "run_events ar target (before @ [Entries entries] @ later) ?c0
             = run_events ar target later ?c1"
    using s by (simp add: run_events_append)
  have r: "run_events ar target later ?c1
             = (animation_frame ar target ^^ count_list later Frame) ?c1"
    and o: "\<not> observing (run_events ar target later ?c1)"
    using run_events_unobserved [OF un] by blast+
  have k: "(animation_frame ar target ^^ count_list later Frame) ?c1
             = counter_at ar target shown (count_list later Frame)"
    by (simp add: counter_at_def deliver_def initial_counter_def)
  have opts: "effective_options counters_observer_options
                = \<lparr>threshold = 0, rootMargin = ''0px 0px 0px 0px''\<rparr>"
    by (simp add: effective_options_def counters_observer_options_def observer_defaults_def)
  show ?thesis using opts q s l r o k by simp
qed

theorem counter_trigger_one_shot_witness:
  "list_all quiet [Frame, Entries [False], Frame] \<and> count_list [False, True] True = 1 \<and>
   run_events double 50 [Frame, Entries [False], Frame] (initial_counter 0) = initial_counter 0 \<and>
   run_events double 50 ([Frame, Entries [False], Frame] @ [Entries [False, True]]
       @ [Frame, Entries [True, True], Frame]) (initial_counter 0)
     = counter_at double 50 0 2 \<and>
   textContent (counter_at double 50 0 2) = 1"
proof -
  have h1: "list_all quiet [Frame, Entries [False], Frame]" by simp
  have h2: "count_list [False, True] True = 1" by simp
  have n: "count_list [Frame, Entries [True, True], Frame] Frame = 2" by simp
  have v: "textContent (counter_at double 50 0 2) = 1" by (simp add: frames_50(2))
  note once = counter_trigger_one_shot [OF h1 h2, of double 50 0 "[Frame, Entries [True, True], Frame]",
      unfolded n]
  show ?thesis using once h1 h2 v by blast
qed

section \<open>Live clock (lines 55 to 92)\<close>

text \<open>
  A thrown value is a value of the model. The two formatting calls of \<^verbatim>\<open>Date\<close> belong to
  the browser and may throw (a RangeError for a time zone it does not know); they are
  parameters, functions from the instant \<^verbatim>\<open>new Date()\<close> to the string or the thrown value.
\<close>

datatype js_error = Thrown string

datatype console_entry = Warn string js_error | Error string js_error

text \<open>What the clock element holds: the time-display markup of lines 78 to 83 with its
  time and date strings, or a plain text.\<close>

datatype element_content = TimeDisplay string string | TextContent string

record clock =
  timeElement :: element_content
  console :: "console_entry list"

record 'd formatter =
  toLocaleTimeString :: "'d \<Rightarrow> js_error + string"
  toLocaleDateString :: "'d \<Rightarrow> js_error + string"

text \<open>The body of the try block: the first call that throws ends it.\<close>

definition updateTime_try :: "'d formatter \<Rightarrow> 'd \<Rightarrow> clock \<Rightarrow> js_error + clock" where
  "updateTime_try fmt d c =
     (case toLocaleTimeString fmt d of
        Inl error \<Rightarrow> Inl error
      | Inr timeString \<Rightarrow>
          (case toLocaleDateString fmt d of
             Inl error \<Rightarrow> Inl error
           | Inr dateString \<Rightarrow> Inr (c\<lparr>timeElement := TimeDisplay timeString dateString\<rparr>)))"

definition updateTime :: "'d formatter \<Rightarrow> 'd \<Rightarrow> clock \<Rightarrow> js_error + clock" where
  "updateTime fmt d c =
     (case updateTime_try fmt d c of
        Inr c' \<Rightarrow> Inr c'
      | Inl error \<Rightarrow>
          Inr (c\<lparr>console := console c @ [Warn ''Time display error:'' error],
                timeElement := TextContent ''Time unavailable''\<rparr>))"

text \<open>
  \<^verbatim>\<open>updateTime(); setInterval(updateTime, 1000)\<close>: one call for each instant of the list,
  the first at once and one per tick. An error leaving a call would go to the window's
  error listener (line 366), which logs it, and the interval would go on.
\<close>

fun ticks :: "'d formatter \<Rightarrow> 'd list \<Rightarrow> clock \<Rightarrow> clock" where
  "ticks fmt [] c = c"
| "ticks fmt (d # ds) c =
     (case updateTime fmt d c of
        Inr c' \<Rightarrow> ticks fmt ds c'
      | Inl error \<Rightarrow> ticks fmt ds (c\<lparr>console := console c @ [Error ''Script error:'' error]\<rparr>))"

text \<open>Without the element with id current-time nothing is set up (line 57).\<close>

definition initializeTimeDisplay :: "'d formatter \<Rightarrow> 'd list \<Rightarrow> clock option \<Rightarrow> clock option" where
  "initializeTimeDisplay fmt ds page_clock =
     (case page_clock of None \<Rightarrow> None | Some c \<Rightarrow> Some (ticks fmt ds c))"

text \<open>A formatter for instants counted in seconds: it does not know the time zone at
  second 1, fails on the date at second 2, and works otherwise.\<close>

definition flaky :: "nat formatter" where
  "flaky =
     \<lparr>toLocaleTimeString = (\<lambda>d. if d = 1 then Inl (Thrown ''RangeError'') else Inr ''12:00:00''),
      toLocaleDateString = (\<lambda>d. if d = 2 then Inl (Thrown ''TypeError'') else Inr ''Monday, 2 November 2026'')\<rparr>"

definition blank_clock :: clock where
  "blank_clock = \<lparr>timeElement = TextContent [], console = []\<rparr>"

lemma updateTime_returns: "\<exists>c'. updateTime fmt d c = Inr c'"
  by (simp add: updateTime_def split: sum.splits)

lemma ticks_append: "ticks fmt (ds @ es) c = ticks fmt es (ticks fmt ds c)"
  by (induction ds arbitrary: c) (auto split: sum.splits)

text \<open>
  C6. When the time formatting or the date formatting throws during a tick, updateTime
  returns normally: it appends one warning with the thrown value to the console and sets
  the element to the text "Time unavailable". No call of updateTime lets an error out,
  whatever the formatter does, and every tick runs updateTime on what the earlier ticks
  left, failed or not.
\<close>

theorem clock_failure_is_contained:
  "(toLocaleTimeString fmt d = Inl e \<or>
    (\<exists>timeString. toLocaleTimeString fmt d = Inr timeString \<and> toLocaleDateString fmt d = Inl e) \<longrightarrow>
      updateTime fmt d c
        = Inr (c\<lparr>console := console c @ [Warn ''Time display error:'' e],
                timeElement := TextContent ''Time unavailable''\<rparr>)) \<and>
   (\<exists>c'. updateTime fmt d c = Inr c') \<and>
   updateTime fmt d (ticks fmt ds c) = Inr (ticks fmt (ds @ [d]) c)"
proof (intro conjI impI)
  assume "toLocaleTimeString fmt d = Inl e \<or>
    (\<exists>timeString. toLocaleTimeString fmt d = Inr timeString \<and> toLocaleDateString fmt d = Inl e)"
  then have "updateTime_try fmt d c = Inl e"
    by (auto simp: updateTime_try_def)
  then show "updateTime fmt d c
        = Inr (c\<lparr>console := console c @ [Warn ''Time display error:'' e],
                timeElement := TextContent ''Time unavailable''\<rparr>)"
    by (simp add: updateTime_def)
next
  show "\<exists>c'. updateTime fmt d c = Inr c'" by (rule updateTime_returns)
next
  obtain c' where c': "updateTime fmt d (ticks fmt ds c) = Inr c'"
    using updateTime_returns [of fmt d "ticks fmt ds c"] by blast
  then have "ticks fmt [d] (ticks fmt ds c) = c'" by simp
  then show "updateTime fmt d (ticks fmt ds c) = Inr (ticks fmt (ds @ [d]) c)"
    using c' by (simp add: ticks_append)
qed

theorem clock_failure_is_contained_witness:
  "toLocaleTimeString flaky 1 = Inl (Thrown ''RangeError'') \<and>
   updateTime flaky 1 (ticks flaky [0] blank_clock)
     = Inr \<lparr>timeElement = TextContent ''Time unavailable'',
            console = [Warn ''Time display error:'' (Thrown ''RangeError'')]\<rparr> \<and>
   ticks flaky [0, 1] blank_clock
     = \<lparr>timeElement = TextContent ''Time unavailable'',
        console = [Warn ''Time display error:'' (Thrown ''RangeError'')]\<rparr> \<and>
   ticks flaky [0, 1, 2, 3] blank_clock
     = \<lparr>timeElement = TimeDisplay ''12:00:00'' ''Monday, 2 November 2026'',
        console = [Warn ''Time display error:'' (Thrown ''RangeError''),
                   Warn ''Time display error:'' (Thrown ''TypeError'')]\<rparr>"
proof -
  have f: "toLocaleTimeString flaky 1 = Inl (Thrown ''RangeError'')" by (simp add: flaky_def)
  have t0: "ticks flaky [0] blank_clock
              = \<lparr>timeElement = TimeDisplay ''12:00:00'' ''Monday, 2 November 2026'', console = []\<rparr>"
    by (simp add: flaky_def blank_clock_def updateTime_def updateTime_try_def)
  note inst = clock_failure_is_contained [of flaky 1 "Thrown ''RangeError''"
      "ticks flaky [0] blank_clock" "[]", unfolded t0]
  have u0: "updateTime flaky 1
              \<lparr>timeElement = TimeDisplay ''12:00:00'' ''Monday, 2 November 2026'', console = []\<rparr>
     = Inr \<lparr>timeElement = TextContent ''Time unavailable'',
            console = [Warn ''Time display error:'' (Thrown ''RangeError'')]\<rparr>"
    using inst f by simp
  have u: "updateTime flaky 1 (ticks flaky [0] blank_clock)
     = Inr \<lparr>timeElement = TextContent ''Time unavailable'',
            console = [Warn ''Time display error:'' (Thrown ''RangeError'')]\<rparr>"
    unfolding t0 by (rule u0)
  have "ticks flaky [0, 1] blank_clock = ticks flaky [1] (ticks flaky [0] blank_clock)"
    using ticks_append [of flaky "[0]" "[1]" blank_clock] by simp
  also have "\<dots> = \<lparr>timeElement = TextContent ''Time unavailable'',
        console = [Warn ''Time display error:'' (Thrown ''RangeError'')]\<rparr>"
    unfolding t0 using u0 by simp
  finally have t1: "ticks flaky [0, 1] blank_clock
     = \<lparr>timeElement = TextContent ''Time unavailable'',
        console = [Warn ''Time display error:'' (Thrown ''RangeError'')]\<rparr>" .
  have t3: "ticks flaky [0, 1, 2, 3] blank_clock
     = \<lparr>timeElement = TimeDisplay ''12:00:00'' ''Monday, 2 November 2026'',
        console = [Warn ''Time display error:'' (Thrown ''RangeError''),
                   Warn ''Time display error:'' (Thrown ''TypeError'')]\<rparr>"
    by (simp add: flaky_def blank_clock_def updateTime_def updateTime_try_def)
  show ?thesis using f u t1 t3 by blast
qed

end
